theory Spec2Isabelle
  imports Complex_Main
begin

section \<open>Outcomes of a call\<close>

text \<open>
  A JavaScript call either returns a value, throws, or never returns. Numbers are
  modelled as mathematical reals (no NaN, no infinities); where the source can produce
  \<open>undefined\<close> or NaN from an array read outside its bounds, that value is an explicit
  \<open>None\<close>. Arithmetic is exact except for the two endpoints of a peak region, whose
  sum and difference are rounded to doubles as the code rounds them (section on rounding).
\<close>

datatype exn = TypeError | RangeError | IndexSizeError

datatype 'a res = Ok 'a | Throw exn | Diverge

definition bindR :: "'a res \<Rightarrow> ('a \<Rightarrow> 'b res) \<Rightarrow> 'b res" where
  "bindR m f = (case m of Ok x \<Rightarrow> f x | Throw e \<Rightarrow> Throw e | Diverge \<Rightarrow> Diverge)"

lemma bindR_cong [fundef_cong]:
  "m = m' \<Longrightarrow> (\<And>x. m' = Ok x \<Longrightarrow> f x = f' x) \<Longrightarrow> bindR m f = bindR m' f'"
  by (cases m') (simp_all add: bindR_def)

lemma bindR_Ok [simp]: "bindR (Ok x) f = f x"
  by (simp add: bindR_def)

lemma bindR_Throw [simp]: "bindR (Throw e) f = Throw e"
  by (simp add: bindR_def)

lemma bindR_Diverge [simp]: "bindR Diverge f = Diverge"
  by (simp add: bindR_def)

section \<open>Data model (types.ts and the Web Audio buffer)\<close>

text \<open>
  \<open>AudioBuffer\<close> is the browser's decoded PCM buffer, with the attributes the source
  reads: \<open>sampleRate\<close>, \<open>length\<close> (frames per channel), \<open>duration\<close> and the
  per-channel sample arrays; \<open>numberOfChannels\<close> is the number of those arrays.
\<close>

record AudioBuffer =
  sampleRate :: real
  lengthB :: nat
  duration :: real
  channels :: "real list list"

definition numberOfChannels :: "AudioBuffer \<Rightarrow> nat" where
  "numberOfChannels buffer = length (channels buffer)"

text \<open>\<open>buffer.getChannelData(i)\<close> throws IndexSizeError when there is no channel \<open>i\<close>.\<close>

definition getChannelData :: "AudioBuffer \<Rightarrow> nat \<Rightarrow> real list res" where
  "getChannelData buffer i =
     (if i < numberOfChannels buffer then Ok (channels buffer ! i) else Throw IndexSizeError)"

record AudioDataPoint =
  time :: real
  original :: real
  isolated :: real

record PeakRegion =
  start :: real
  endT :: real
  amplitude :: real

record PeaksResult =
  points :: "AudioDataPoint list"
  originalPeakRegion :: "PeakRegion option"
  isolatedPeakRegion :: "PeakRegion option"

section \<open>Rounding to a double\<close>

text \<open>
  A JavaScript number is an IEEE 754 double: 53 significant bits, results rounded to the
  nearest representable value, ties to the even significand. \<open>rne\<close> rounds to the nearest
  integer, ties to even. \<open>expo\<close> is the binary exponent of a positive number, kept within
  the exponent range of doubles (below \<open>2 ^ - 1022\<close> the spacing is that of subnormals;
  numbers of \<open>2 ^ 1024\<close> and more, which a double does not hold, keep the top spacing).
  \<open>fl\<close> rounds a real to the nearest double.
\<close>

definition rne :: "real \<Rightarrow> int" where
  "rne y = (let f = \<lfloor>y\<rfloor>; d = y - real_of_int f
            in if d < 1 / 2 then f else if 1 / 2 < d then f + 1
               else if even f then f else f + 1)"

function expoUp :: "real \<Rightarrow> int \<Rightarrow> int" where
  "expoUp y e = (if y < 2 \<or> 1023 \<le> e then e else expoUp (y / 2) (e + 1))"
  by pat_completeness auto
termination
  by (relation "measure (\<lambda>(y, e). nat (1023 - e))") auto

function expoDown :: "real \<Rightarrow> int \<Rightarrow> int" where
  "expoDown y e = (if 1 \<le> y \<or> e \<le> - 1022 then e else expoDown (y * 2) (e - 1))"
  by pat_completeness auto
termination
  by (relation "measure (\<lambda>(y, e). nat (e + 1022))") auto

declare expoUp.simps [simp del]

declare expoDown.simps [simp del]

definition expo :: "real \<Rightarrow> int" where
  "expo y = (if 1 \<le> y then expoUp y 0 else expoDown y 0)"

definition fl :: "real \<Rightarrow> real" where
  "fl x = (if x = 0 then 0
           else let q = 2 powi (expo \<bar>x\<bar> - 52) in real_of_int (rne (x / q)) * q)"

text \<open>The sum and the difference of two doubles as JavaScript computes them. A zero
  operand leaves the other one as it is.\<close>

definition addD :: "real \<Rightarrow> real \<Rightarrow> real" where
  "addD a b = (if a = 0 then b else if b = 0 then a else fl (a + b))"

definition subD :: "real \<Rightarrow> real \<Rightarrow> real" where
  "subD a b = (if b = 0 then a else if a = 0 then - b else fl (a - b))"

section \<open>extractAudioPeaks (utils/audioUtils.ts)\<close>

text \<open>
  \<open>Math.abs(channelData[i])\<close>: a typed array read outside \<open>0 \<le> i < length\<close> is
  \<open>undefined\<close>, whose absolute value is NaN (\<open>None\<close> here).
\<close>

definition absAt :: "real list \<Rightarrow> int \<Rightarrow> real option" where
  "absAt channelData i =
     (if 0 \<le> i \<and> i < int (length channelData) then Some \<bar>channelData ! nat i\<bar> else None)"

text \<open>
  The scan of \<open>getPeak\<close>:
  \<^verbatim>\<open>for (let i = startSample; i < endSample && i < channelData.length; i += stride)\<close>.
  The accumulator is the running maximum together with the list of indices at which
  \<open>channelData\<close> has been read so far. A comparison with NaN is false, so a read outside
  the array leaves the maximum as it is. The loop may run forever for a stride that is not
  positive, hence the option type: \<open>None\<close> is "does not return".
\<close>

partial_function (option) getPeakLoop ::
  "real list \<Rightarrow> int \<Rightarrow> int \<Rightarrow> int \<Rightarrow> real \<times> int list \<Rightarrow> (real \<times> int list) option" where
  "getPeakLoop channelData endSample stride i acc =
     (if i < endSample \<and> i < int (length channelData) then
        getPeakLoop channelData endSample stride (i + stride)
          (case absAt channelData i of
             Some val \<Rightarrow> (if val > fst acc then val else fst acc, snd acc @ [i])
           | None \<Rightarrow> (fst acc, snd acc @ [i]))
      else Some acc)"

declare getPeakLoop.simps [code]

text \<open>\<open>Math.ceil((endSample - startSample) / 1000) || 1\<close>: a zero quotient is falsy.\<close>

definition strideOf :: "int \<Rightarrow> int \<Rightarrow> int" where
  "strideOf startSample endSample =
     (let c = \<lceil>real_of_int (endSample - startSample) / 1000\<rceil> in if c = 0 then 1 else c)"

text \<open>\<open>getPeakRun\<close> is the helper \<open>getPeak\<close> with the indices it read; \<open>getPeak\<close> is
  its returned maximum.\<close>

definition getPeakRun :: "AudioBuffer \<Rightarrow> real \<Rightarrow> real \<Rightarrow> (real \<times> int list) res" where
  "getPeakRun buffer startTime windowSize =
     (let startSample = \<lfloor>startTime * sampleRate buffer\<rfloor>;
          endSample = \<lfloor>(startTime + windowSize) * sampleRate buffer\<rfloor>
      in bindR (getChannelData buffer 0) (\<lambda>channelData.
           case getPeakLoop channelData endSample (strideOf startSample endSample)
                  startSample (0, []) of
             None \<Rightarrow> Diverge
           | Some r \<Rightarrow> Ok r))"

definition getPeak :: "AudioBuffer \<Rightarrow> real \<Rightarrow> real \<Rightarrow> real res" where
  "getPeak buffer startTime windowSize =
     bindR (getPeakRun buffer startTime windowSize) (\<lambda>r. Ok (fst r))"

text \<open>The mutable locals of the main loop.\<close>

record PeakAcc =
  data :: "AudioDataPoint list"
  maxOriginalAmplitude :: real
  maxOriginalTime :: real
  maxIsolatedAmplitude :: real
  maxIsolatedTime :: real

definition peakStep :: "PeakAcc \<Rightarrow> real \<Rightarrow> real \<Rightarrow> real \<Rightarrow> PeakAcc" where
  "peakStep st t orig isol =
     (let st1 = (if orig > maxOriginalAmplitude st
                 then st\<lparr>maxOriginalAmplitude := orig, maxOriginalTime := t\<rparr> else st);
          st2 = (if isol > maxIsolatedAmplitude st1
                 then st1\<lparr>maxIsolatedAmplitude := isol, maxIsolatedTime := t\<rparr> else st1)
      in st2\<lparr>data := data st2 @ [\<lparr>time = t, original = orig, isolated = isol\<rparr>]\<rparr>)"

text \<open>\<open>buffer ? getPeak(buffer, time, step) : 0\<close>\<close>

definition peakOrZero :: "AudioBuffer option \<Rightarrow> real \<Rightarrow> real \<Rightarrow> real res" where
  "peakOrZero buffer t step = (case buffer of Some b \<Rightarrow> getPeak b t step | None \<Rightarrow> Ok 0)"

text \<open>\<^verbatim>\<open>for (let i = 0; i < samples; i++)\<close>\<close>

function peaksLoop ::
  "AudioBuffer option \<Rightarrow> AudioBuffer option \<Rightarrow> real \<Rightarrow> nat \<Rightarrow> nat \<Rightarrow> PeakAcc \<Rightarrow> PeakAcc res" where
  "peaksLoop buffer1 buffer2 step samples i st =
     (if i < samples then
        bindR (peakOrZero buffer1 (real i * step) step) (\<lambda>orig.
        bindR (peakOrZero buffer2 (real i * step) step) (\<lambda>isol.
        peaksLoop buffer1 buffer2 step samples (i + 1) (peakStep st (real i * step) orig isol)))
      else Ok st)"
  by pat_completeness auto
termination
  by (relation "measure (\<lambda>(b1, b2, step, samples, i, st). samples - i)") auto

declare peaksLoop.simps [simp del]

text \<open>\<open>buffer?.duration || 0\<close>: an absent buffer and a zero duration both give 0.\<close>

definition durationOr0 :: "AudioBuffer option \<Rightarrow> real" where
  "durationOr0 buffer =
     (case buffer of None \<Rightarrow> 0 | Some b \<Rightarrow> (if duration b = 0 then 0 else duration b))"

definition maxDuration :: "AudioBuffer option \<Rightarrow> AudioBuffer option \<Rightarrow> real" where
  "maxDuration buffer1 buffer2 = max (durationOr0 buffer1) (durationOr0 buffer2)"

text \<open>The region around a tracked maximum: \<open>Math.max(0, maxTime - regionWindow / 2)\<close>
  and \<open>Math.min(duration, maxTime + regionWindow / 2)\<close>, the difference and the sum
  rounded.\<close>

definition regionAround :: "real \<Rightarrow> real \<Rightarrow> real \<Rightarrow> real \<Rightarrow> PeakRegion" where
  "regionAround dur regionWindow maxTime maxAmplitude =
     \<lparr>start = max 0 (subD maxTime (regionWindow / 2)),
      endT = min dur (addD maxTime (regionWindow / 2)),
      amplitude = maxAmplitude\<rparr>"

text \<open>With \<open>samples = 0\<close> the source's \<open>step\<close> is Infinity; the loop body, its only
  reader, is then never entered (here the quotient is HOL's \<open>x / 0 = 0\<close>).\<close>

definition extractAudioPeaks ::
  "AudioBuffer option \<Rightarrow> AudioBuffer option \<Rightarrow> nat \<Rightarrow> PeaksResult res" where
  "extractAudioPeaks buffer1 buffer2 samples =
     (let dur = maxDuration buffer1 buffer2 in
      if dur = 0 then Ok \<lparr>points = [], originalPeakRegion = None, isolatedPeakRegion = None\<rparr>
      else
        bindR (peaksLoop buffer1 buffer2 (dur / real samples) samples 0
                 \<lparr>data = [], maxOriginalAmplitude = 0, maxOriginalTime = 0,
                  maxIsolatedAmplitude = 0, maxIsolatedTime = 0\<rparr>)
          (\<lambda>st.
             let regionWindow = min (dur * 0.1) 5 in
             Ok \<lparr>points = data st,
                 originalPeakRegion =
                   (case buffer1 of
                      Some b \<Rightarrow> Some (regionAround dur regionWindow
                                        (maxOriginalTime st) (maxOriginalAmplitude st))
                    | None \<Rightarrow> None),
                 isolatedPeakRegion =
                   (case buffer2 of
                      Some b \<Rightarrow> Some (regionAround dur regionWindow
                                        (maxIsolatedTime st) (maxIsolatedAmplitude st))
                    | None \<Rightarrow> None)\<rparr>))"

text \<open>A supplied buffer has a channel 0, as every AudioBuffer of the Web Audio API has; for
  such a buffer \<open>getChannelData(0)\<close> does not throw.\<close>

definition hasFirstChannel :: "AudioBuffer option \<Rightarrow> bool" where
  "hasFirstChannel buffer = (case buffer of None \<Rightarrow> True | Some b \<Rightarrow> channels b \<noteq> [])"

section \<open>audioBufferToWav (utils/audioUtils.ts)\<close>

text \<open>Number conversions of the DataView setters and of \<open>| 0\<close>: truncate toward zero,
  then wrap modulo \<open>2 ^ 32\<close>.\<close>

definition truncR :: "real \<Rightarrow> int" where
  "truncR x = (if x < 0 then \<lceil>x\<rceil> else \<lfloor>x\<rfloor>)"

definition toInt32 :: "real \<Rightarrow> int" where
  "toInt32 x = (let n = truncR x mod 2 ^ 32 in if 2 ^ 31 \<le> n then n - 2 ^ 32 else n)"

definition toUint32 :: "real \<Rightarrow> nat" where
  "toUint32 x = nat (truncR x mod 2 ^ 32)"

definition toUint16 :: "real \<Rightarrow> nat" where
  "toUint16 x = nat (truncR x mod 2 ^ 16)"

text \<open>The bytes of the ArrayBuffer are naturals below 256. A DataView write outside the
  buffer throws RangeError.\<close>

definition viewSet :: "nat list \<Rightarrow> nat \<Rightarrow> nat list \<Rightarrow> nat list res" where
  "viewSet v off bs =
     (if off + length bs \<le> length v
      then Ok (take off v @ bs @ drop (off + length bs) v) else Throw RangeError)"

definition le16 :: "nat \<Rightarrow> nat list" where
  "le16 n = [n mod 256, n div 256 mod 256]"

definition le32 :: "nat \<Rightarrow> nat list" where
  "le32 n = [n mod 256, n div 256 mod 256, n div 65536 mod 256, n div 16777216 mod 256]"

text \<open>\<open>view.setInt16(off, sample, true)\<close>: two's complement, little-endian.\<close>

definition setInt16 :: "nat list \<Rightarrow> nat \<Rightarrow> int \<Rightarrow> nat list res" where
  "setInt16 v off x = viewSet v off (le16 (nat (x mod 2 ^ 16)))"

text \<open>The header writers share the cursor \<open>pos\<close> with the rest of the function.\<close>

record Writer =
  view :: "nat list"
  pos :: nat

definition setUint16 :: "real \<Rightarrow> Writer \<Rightarrow> Writer res" where
  "setUint16 d w =
     bindR (viewSet (view w) (pos w) (le16 (toUint16 d)))
       (\<lambda>v. Ok (w\<lparr>view := v, pos := pos w + 2\<rparr>))"

definition setUint32 :: "real \<Rightarrow> Writer \<Rightarrow> Writer res" where
  "setUint32 d w =
     bindR (viewSet (view w) (pos w) (le32 (toUint32 d)))
       (\<lambda>v. Ok (w\<lparr>view := v, pos := pos w + 4\<rparr>))"

text \<open>\<open>channels[i][pos]\<close>: \<open>None\<close> is the \<open>undefined\<close> of a read past the end of the
  channel; a missing channel array makes the member access throw.\<close>

definition sampleAt :: "real list list \<Rightarrow> nat \<Rightarrow> nat \<Rightarrow> real option res" where
  "sampleAt chs i p =
     (if i < length chs
      then Ok (if p < length (chs ! i) then Some (chs ! i ! p) else None)
      else Throw TypeError)"

text \<open>\<open>Math.max(-1, Math.min(1, x))\<close>; NaN stays NaN.\<close>

definition clampSample :: "real option \<Rightarrow> real option" where
  "clampSample x = map_option (\<lambda>y. max (- 1) (min 1 y)) x"

text \<open>\<open>(0.5 + sample < 0 ? sample * 32768 : sample * 32767) | 0\<close>: the comparison is
  between \<open>0.5 + sample\<close> and 0; NaN takes the else branch and \<open>NaN | 0\<close> is 0.\<close>

definition scaleSample :: "real option \<Rightarrow> int" where
  "scaleSample x =
     (case x of
        None \<Rightarrow> 0
      | Some sample \<Rightarrow>
          toInt32 (if 0.5 + sample < 0 then sample * 32768 else sample * 32767))"

text \<open>\<^verbatim>\<open>for (i = 0; i < numOfChan; i++)\<close>, returning the new \<open>offset\<close> and buffer.\<close>

function writeFrame ::
  "real list list \<Rightarrow> nat \<Rightarrow> nat \<Rightarrow> nat \<Rightarrow> nat \<Rightarrow> nat list \<Rightarrow> (nat \<times> nat list) res" where
  "writeFrame chs numOfChan p i offset v =
     (if i < numOfChan then
        bindR (sampleAt chs i p) (\<lambda>x.
        bindR (setInt16 v (44 + offset) (scaleSample (clampSample x))) (\<lambda>v'.
        writeFrame chs numOfChan p (i + 1) (offset + 2) v'))
      else Ok (offset, v))"
  by pat_completeness auto
termination
  by (relation "measure (\<lambda>(chs, numOfChan, p, i, offset, v). numOfChan - i)") auto

declare writeFrame.simps [simp del]

text \<open>\<^verbatim>\<open>while (pos < buffer.length) { ...; pos++ }\<close>\<close>

function writeFrames ::
  "real list list \<Rightarrow> nat \<Rightarrow> nat \<Rightarrow> nat \<Rightarrow> nat \<Rightarrow> nat list \<Rightarrow> nat list res" where
  "writeFrames chs numOfChan len p offset v =
     (if p < len then
        bindR (writeFrame chs numOfChan p 0 offset v) (\<lambda>r.
        writeFrames chs numOfChan len (p + 1) (fst r) (snd r))
      else Ok v)"
  by pat_completeness auto
termination
  by (relation "measure (\<lambda>(chs, numOfChan, len, p, offset, v). len - p)") auto

declare writeFrames.simps [simp del]

definition writeHeader :: "AudioBuffer \<Rightarrow> int \<Rightarrow> Writer \<Rightarrow> Writer res" where
  "writeHeader buffer len w0 =
     (let numOfChan = real (numberOfChannels buffer) in
      bindR (setUint32 0x46464952 w0) (\<lambda>w.
      bindR (setUint32 (real_of_int (len - 8)) w) (\<lambda>w.
      bindR (setUint32 0x45564157 w) (\<lambda>w.
      bindR (setUint32 0x20746d66 w) (\<lambda>w.
      bindR (setUint32 16 w) (\<lambda>w.
      bindR (setUint16 1 w) (\<lambda>w.
      bindR (setUint16 numOfChan w) (\<lambda>w.
      bindR (setUint32 (sampleRate buffer) w) (\<lambda>w.
      bindR (setUint32 (sampleRate buffer * 2 * numOfChan) w) (\<lambda>w.
      bindR (setUint16 (numOfChan * 2) w) (\<lambda>w.
      bindR (setUint16 16 w) (\<lambda>w.
      bindR (setUint32 0x61746164 w) (\<lambda>w.
      setUint32 (real_of_int (len - int (pos w) - 4)) w)))))))))))))"

text \<open>The array \<open>channels\<close> holds \<open>getChannelData(i)\<close> for every
  \<open>i < numberOfChannels\<close>, that is all the channel arrays. The frame loop starts at the
  value the cursor \<open>pos\<close> has after the header. The result is the content of the Blob.\<close>

definition audioBufferToWav :: "AudioBuffer \<Rightarrow> nat list res" where
  "audioBufferToWav buffer =
     (let numOfChan = numberOfChannels buffer;
          len = lengthB buffer * numOfChan * 2 + 44
      in bindR (writeHeader buffer (int len) \<lparr>view = replicate len 0, pos = 0\<rparr>) (\<lambda>w.
         writeFrames (channels buffer) numOfChan (lengthB buffer) (pos w) 0 (view w)))"

section \<open>Playback control (components/MediaComparator.tsx)\<close>

text \<open>
  A media element is its playback position and its \<open>paused\<close> flag; \<open>play()\<close>,
  \<open>pause()\<close> and an assignment to \<open>currentTime\<close> take effect at once. The component
  state is the React state the handlers read and set, and the three element refs, each null
  (\<open>None\<close>) until its element is attached. \<open>pendingFrames\<close> holds the animation
  frames that have been requested and have not run yet, oldest first; each is a
  \<open>syncLoop\<close> callback, identified by the value of \<open>isSynced\<close> it closed over.
\<close>

record Media =
  currentTime :: real
  paused :: bool

record Comparator =
  isSynced :: bool
  isPlaying1 :: bool
  isPlaying2 :: bool
  currentTime1 :: real
  currentTime2 :: real
  videoOriginalRef :: "Media option"
  videoMutedRef :: "Media option"
  audioIsolatedRef :: "Media option"
  pendingFrames :: "bool list"

definition play :: "Media \<Rightarrow> Media" where
  "play m = m\<lparr>paused := False\<rparr>"

definition pause :: "Media \<Rightarrow> Media" where
  "pause m = m\<lparr>paused := True\<rparr>"

definition seekTo :: "real \<Rightarrow> Media \<Rightarrow> Media" where
  "seekTo t m = m\<lparr>currentTime := t\<rparr>"

text \<open>A member access on the current value of a ref throws TypeError on null.\<close>

definition deref :: "Media option \<Rightarrow> Media res" where
  "deref r = (case r of None \<Rightarrow> Throw TypeError | Some m \<Rightarrow> Ok m)"

text \<open>
  One tick of \<open>syncLoop\<close>, for the callback that closed over the value
  \<open>closedIsSynced\<close> of \<open>isSynced\<close>: \<open>useCallback\<close> makes a new callback whenever
  \<open>isSynced\<close> changes, and the body of a callback requests the callback itself again.
  The tick has already left \<open>pendingFrames\<close> when it runs (see \<open>runFrame\<close>); when any
  element is still playing it is appended again.
\<close>

definition syncLoop :: "bool \<Rightarrow> Comparator \<Rightarrow> Comparator res" where
  "syncLoop closedIsSynced s =
     (if videoOriginalRef s = None \<or> videoMutedRef s = None \<or> audioIsolatedRef s = None
      then Ok s
      else
        bindR (deref (videoOriginalRef s)) (\<lambda>v1.
        bindR (deref (videoMutedRef s)) (\<lambda>v2.
        bindR (deref (audioIsolatedRef s)) (\<lambda>a1.
          let tolerance = 0.15;
              v2' = (if closedIsSynced \<and> \<not> paused v1
                       \<and> \<bar>currentTime v2 - currentTime v1\<bar> > tolerance
                     then seekTo (currentTime v1) v2 else v2);
              a1' = (if closedIsSynced \<and> \<not> paused v1
                       \<and> \<bar>currentTime a1 - currentTime v1\<bar> > tolerance
                     then seekTo (currentTime v1) a1 else a1)
          in Ok (s\<lparr>currentTime1 := currentTime v1,
                   currentTime2 := currentTime v2,
                   videoMutedRef := Some v2',
                   audioIsolatedRef := Some a1',
                   pendingFrames :=
                     (if \<not> paused v1 \<or> \<not> paused v2' \<or> \<not> paused a1'
                      then pendingFrames s @ [closedIsSynced] else pendingFrames s)\<rparr>)))))"

text \<open>The browser runs the oldest pending animation frame.\<close>

definition runFrame :: "Comparator \<Rightarrow> Comparator res" where
  "runFrame s =
     (case pendingFrames s of
        [] \<Rightarrow> Ok s
      | c # rest \<Rightarrow> syncLoop c (s\<lparr>pendingFrames := rest\<rparr>))"

text \<open>
  The effect "Restart loop on play state change", with dependencies \<open>isPlaying1\<close>,
  \<open>isPlaying2\<close> and \<open>syncLoop\<close> (which changes exactly when \<open>isSynced\<close> does): after
  a render in which one of them differs from the previous render \<open>prev\<close>, it requests a
  frame for the current callback if something is flagged playing. It cancels nothing:
  frames requested earlier stay pending.
\<close>

definition restartEffect :: "Comparator \<Rightarrow> Comparator \<Rightarrow> Comparator" where
  "restartEffect prev s =
     (if (isPlaying1 s \<noteq> isPlaying1 prev \<or> isPlaying2 s \<noteq> isPlaying2 prev
            \<or> isSynced s \<noteq> isSynced prev)
         \<and> (isPlaying1 s \<or> isPlaying2 s)
      then s\<lparr>pendingFrames := pendingFrames s @ [isSynced s]\<rparr> else s)"

definition handleGlobalPlayPause :: "Comparator \<Rightarrow> Comparator res" where
  "handleGlobalPlayPause s =
     (if videoOriginalRef s = None \<or> videoMutedRef s = None \<or> audioIsolatedRef s = None
      then Ok s
      else
        bindR (deref (videoOriginalRef s)) (\<lambda>v1.
        bindR (deref (videoMutedRef s)) (\<lambda>v2.
        bindR (deref (audioIsolatedRef s)) (\<lambda>a1.
          if isPlaying1 s then
            Ok (s\<lparr>videoOriginalRef := Some (pause v1),
                  videoMutedRef := Some (pause v2),
                  audioIsolatedRef := Some (pause a1),
                  isPlaying1 := False, isPlaying2 := False\<rparr>)
          else
            let v2' = (if isSynced s then seekTo (currentTime v1) v2 else v2);
                a1' = (if isSynced s then seekTo (currentTime v1) a1 else a1)
            in Ok (s\<lparr>videoOriginalRef := Some (play v1),
                     videoMutedRef := Some (play v2'),
                     audioIsolatedRef := Some (play a1'),
                     isPlaying1 := True, isPlaying2 := True\<rparr>)))))"

text \<open>\<open>ref.current?.play()\<close> skips a null ref: \<open>map_option\<close>.\<close>

definition handleToggle1 :: "Comparator \<Rightarrow> Comparator res" where
  "handleToggle1 s =
     (if videoOriginalRef s = None then Ok s
      else
        bindR (deref (videoOriginalRef s)) (\<lambda>v1.
          if paused v1 then
            (let s1 = s\<lparr>videoOriginalRef := Some (play v1), isPlaying1 := True\<rparr>
             in if isSynced s
                then Ok (s1\<lparr>videoMutedRef := map_option play (videoMutedRef s1),
                           audioIsolatedRef := map_option play (audioIsolatedRef s1),
                           isPlaying2 := True\<rparr>)
                else Ok s1)
          else
            (let s1 = s\<lparr>videoOriginalRef := Some (pause v1), isPlaying1 := False\<rparr>
             in if isSynced s
                then Ok (s1\<lparr>videoMutedRef := map_option pause (videoMutedRef s1),
                           audioIsolatedRef := map_option pause (audioIsolatedRef s1),
                           isPlaying2 := False\<rparr>)
                else Ok s1)))"

definition handleToggle2 :: "Comparator \<Rightarrow> Comparator res" where
  "handleToggle2 s =
     (if videoMutedRef s = None \<or> audioIsolatedRef s = None then Ok s
      else
        bindR (deref (videoMutedRef s)) (\<lambda>v2.
        bindR (deref (audioIsolatedRef s)) (\<lambda>a1.
          if paused v2 then
            (let s1 = s\<lparr>videoMutedRef := Some (play v2), audioIsolatedRef := Some (play a1),
                        isPlaying2 := True\<rparr>
             in if isSynced s
                then Ok (s1\<lparr>videoOriginalRef := map_option play (videoOriginalRef s1),
                           isPlaying1 := True\<rparr>)
                else Ok s1)
          else
            (let s1 = s\<lparr>videoMutedRef := Some (pause v2), audioIsolatedRef := Some (pause a1),
                        isPlaying2 := False\<rparr>
             in if isSynced s
                then Ok (s1\<lparr>videoOriginalRef := map_option pause (videoOriginalRef s1),
                           isPlaying1 := False\<rparr>)
                else Ok s1))))"

definition seekFollowers :: "real \<Rightarrow> Comparator \<Rightarrow> Comparator res" where
  "seekFollowers t s =
     bindR (deref (videoMutedRef s)) (\<lambda>v2.
     bindR (deref (audioIsolatedRef s)) (\<lambda>a1.
       Ok (s\<lparr>videoMutedRef := Some (seekTo t v2), audioIsolatedRef := Some (seekTo t a1),
             currentTime2 := t\<rparr>)))"

definition handleSeek :: "real \<Rightarrow> Comparator \<Rightarrow> Comparator res" where
  "handleSeek t s =
     bindR (if videoOriginalRef s \<noteq> None
            then bindR (deref (videoOriginalRef s)) (\<lambda>v1.
                   Ok (s\<lparr>videoOriginalRef := Some (seekTo t v1), currentTime1 := t\<rparr>))
            else Ok s) (\<lambda>s1.
     if isSynced s1 \<and> videoMutedRef s1 \<noteq> None \<and> audioIsolatedRef s1 \<noteq> None
     then seekFollowers t s1
     else if \<not> isSynced s1 \<and> videoMutedRef s1 \<noteq> None \<and> audioIsolatedRef s1 \<noteq> None
     then seekFollowers t s1
     else Ok s1)"

text \<open>The Linked/Unlinked button: \<open>setIsSynced(!isSynced)\<close>.\<close>

definition toggleSynced :: "Comparator \<Rightarrow> Comparator" where
  "toggleSynced s = s\<lparr>isSynced := \<not> isSynced s\<rparr>"

text \<open>Time passing, which is the browser's doing and not the component's: every element
  that is not paused plays on by \<open>dt\<close> seconds.\<close>

definition advance :: "real \<Rightarrow> Media \<Rightarrow> Media" where
  "advance dt m = (if paused m then m else m\<lparr>currentTime := currentTime m + dt\<rparr>)"

definition playOn :: "real \<Rightarrow> Comparator \<Rightarrow> Comparator" where
  "playOn dt s =
     s\<lparr>videoOriginalRef := map_option (advance dt) (videoOriginalRef s),
       videoMutedRef := map_option (advance dt) (videoMutedRef s),
       audioIsolatedRef := map_option (advance dt) (audioIsolatedRef s)\<rparr>"

text \<open>
  The two videos and the audio element are rendered unconditionally in one tree, so React
  sets and clears their three refs in the same commit: they are null together or attached
  together.
\<close>

definition refsAttachedTogether :: "Comparator \<Rightarrow> bool" where
  "refsAttachedTogether s =
     ((videoOriginalRef s = None) = (videoMutedRef s = None)
      \<and> (videoMutedRef s = None) = (audioIsolatedRef s = None))"

section \<open>Concrete inputs\<close>

text \<open>Small buffers and component states on which the functions are run below.\<close>

definition longBuf :: AudioBuffer where
  "longBuf = \<lparr>sampleRate = 2, lengthB = 8, duration = 4,
               channels = [[1/2, -1, 1/4, 0, 0, 1/8, -1/2, 0]]\<rparr>"

definition shortBuf :: AudioBuffer where
  "shortBuf = \<lparr>sampleRate = 2, lengthB = 4, duration = 2, channels = [[1/4, -3/4, 1/2, 0]]\<rparr>"

definition tenSecBuf :: AudioBuffer where
  "tenSecBuf = \<lparr>sampleRate = 1, lengthB = 10, duration = 10,
                 channels = [[0, 1/2, 0, 0, -1/4, 0, 0, 0, 1, 0]]\<rparr>"

definition eightSecBuf :: AudioBuffer where
  "eightSecBuf = \<lparr>sampleRate = 1, lengthB = 8, duration = 8,
                   channels = [[0, 0, 1/4, 0, 0, 0, -1/2, 0]]\<rparr>"


definition oneSampleBuf :: AudioBuffer where
  "oneSampleBuf = \<lparr>sampleRate = 44100, lengthB = 1, duration = 1 / 44100, channels = [[1]]\<rparr>"

definition twoChannelBuf :: AudioBuffer where
  "twoChannelBuf = \<lparr>sampleRate = 8000, lengthB = 1, duration = 1 / 8000,
                     channels = [[1/2], [- 1]]\<rparr>"

text \<open>
  Component states. \<open>initialState\<close> is the state after mounting with all three elements
  attached; \<open>partialState\<close> is reached from it by unlinking and then toggling the muted
  video.
\<close>

definition initialState :: Comparator where
  "initialState = \<lparr>isSynced = True, isPlaying1 = False, isPlaying2 = False,
     currentTime1 = 0, currentTime2 = 0,
     videoOriginalRef = Some \<lparr>currentTime = 0, paused = True\<rparr>,
     videoMutedRef = Some \<lparr>currentTime = 0, paused = True\<rparr>,
     audioIsolatedRef = Some \<lparr>currentTime = 0, paused = True\<rparr>,
     pendingFrames = []\<rparr>"

definition partialState :: Comparator where
  "partialState = \<lparr>isSynced = False, isPlaying1 = False, isPlaying2 = True,
     currentTime1 = 0, currentTime2 = 0,
     videoOriginalRef = Some \<lparr>currentTime = 0, paused = True\<rparr>,
     videoMutedRef = Some \<lparr>currentTime = 0, paused = False\<rparr>,
     audioIsolatedRef = Some \<lparr>currentTime = 0, paused = False\<rparr>,
     pendingFrames = []\<rparr>"

definition driftState :: Comparator where
  "driftState = \<lparr>isSynced = True, isPlaying1 = True, isPlaying2 = True,
     currentTime1 = 10, currentTime2 = 10,
     videoOriginalRef = Some \<lparr>currentTime = 10, paused = False\<rparr>,
     videoMutedRef = Some \<lparr>currentTime = 101 / 10, paused = False\<rparr>,
     audioIsolatedRef = Some \<lparr>currentTime = 21 / 2, paused = False\<rparr>,
     pendingFrames = [True]\<rparr>"

definition linkedApartState :: Comparator where
  "linkedApartState = \<lparr>isSynced = True, isPlaying1 = False, isPlaying2 = False,
     currentTime1 = 3, currentTime2 = 5,
     videoOriginalRef = Some \<lparr>currentTime = 3, paused = True\<rparr>,
     videoMutedRef = Some \<lparr>currentTime = 5, paused = True\<rparr>,
     audioIsolatedRef = Some \<lparr>currentTime = 5, paused = True\<rparr>,
     pendingFrames = []\<rparr>"

definition unlinkedDriftState :: Comparator where
  "unlinkedDriftState = \<lparr>isSynced = False, isPlaying1 = False, isPlaying2 = True,
     currentTime1 = 3, currentTime2 = 5,
     videoOriginalRef = Some \<lparr>currentTime = 3, paused = True\<rparr>,
     videoMutedRef = Some \<lparr>currentTime = 5, paused = False\<rparr>,
     audioIsolatedRef = Some \<lparr>currentTime = 26 / 5, paused = False\<rparr>,
     pendingFrames = [False]\<rparr>"


text \<open>
  \<open>staleState\<close>: the user started playback while linked, unlinked, paused the muted
  video, and the original video has played on for a fifth of a second. The callback
  requested while linked is still pending.
\<close>

definition staleState :: Comparator where
  "staleState = \<lparr>isSynced = False, isPlaying1 = True, isPlaying2 = False,
     currentTime1 = 1 / 10, currentTime2 = 0,
     videoOriginalRef = Some \<lparr>currentTime = 1 / 5, paused = False\<rparr>,
     videoMutedRef = Some \<lparr>currentTime = 0, paused = True\<rparr>,
     audioIsolatedRef = Some \<lparr>currentTime = 0, paused = True\<rparr>,
     pendingFrames = [True, False, False]\<rparr>"

section \<open>The WAV header as the specification lays it out\<close>

text \<open>
  The 44 bytes of the specification's layout, all integers little-endian: "RIFF", u32 file
  length - 8, "WAVE", "fmt ", u32 16, u16 1, u16 numChannels, u32 sampleRate,
  u32 sampleRate * 2 * numChannels, u16 numChannels * 2, u16 16, "data", u32 dataLength.
  It is compared below with what \<open>writeHeader\<close> writes.
\<close>

definition wavHeader :: "AudioBuffer \<Rightarrow> nat \<Rightarrow> nat list" where
  "wavHeader buffer dataLength =
     [82, 73, 70, 70] @ le32 (toUint32 (real (dataLength + 36)))
     @ [87, 65, 86, 69] @ [102, 109, 116, 32] @ le32 16 @ le16 1
     @ le16 (toUint16 (real (numberOfChannels buffer)))
     @ le32 (toUint32 (sampleRate buffer))
     @ le32 (toUint32 (sampleRate buffer * 2 * real (numberOfChannels buffer)))
     @ le16 (toUint16 (real (numberOfChannels buffer) * 2))
     @ le16 16 @ [100, 97, 116, 97] @ le32 (toUint32 (real dataLength))"

text \<open>The writer after the bytes \<open>xs\<close>, with \<open>k\<close> zero bytes still ahead of the cursor.\<close>

definition writerAt :: "nat list \<Rightarrow> nat \<Rightarrow> Writer" where
  "writerAt xs k = \<lparr>view = xs @ replicate k 0, pos = length xs\<rparr>"

section \<open>Facts about rounding\<close>

lemma rne_cases:
  "real_of_int (rne y) - y \<le> 1 / 2 \<and> y - real_of_int (rne y) \<le> 1 / 2
   \<and> \<lfloor>y\<rfloor> \<le> rne y \<and> rne y \<le> \<lfloor>y\<rfloor> + 1"
proof -
  let ?d = "y - real_of_int \<lfloor>y\<rfloor>"
  have d: "0 \<le> ?d" "?d < 1" by linarith+
  consider "?d < 1 / 2" | "1 / 2 < ?d" | "?d = 1 / 2" by linarith
  then show ?thesis
  proof cases
    case 1
    then have "rne y = \<lfloor>y\<rfloor>" by (simp add: rne_def Let_def)
    with d 1 show ?thesis by (auto; linarith)
  next
    case 2
    then have "rne y = \<lfloor>y\<rfloor> + 1" by (simp add: rne_def Let_def)
    with d 2 show ?thesis by (auto; linarith)
  next
    case 3
    then have "rne y = \<lfloor>y\<rfloor> \<or> rne y = \<lfloor>y\<rfloor> + 1" by (simp add: rne_def Let_def)
    with d 3 show ?thesis by (auto; linarith)
  qed
qed

lemma rne_zero [simp]: "rne 0 = 0"
  by (simp add: rne_def)


lemma rne_of_int [simp]: "rne (real_of_int k) = k"
  by (simp add: rne_def)

lemma rne_mono:
  assumes "y \<le> z"
  shows "rne y \<le> rne z"
proof (cases "\<lfloor>y\<rfloor> = \<lfloor>z\<rfloor>")
  case True
  then show ?thesis using assms by (auto simp: rne_def Let_def)
next
  case False
  with assms have "\<lfloor>y\<rfloor> + 1 \<le> \<lfloor>z\<rfloor>" using floor_mono[OF assms] by linarith
  then show ?thesis using rne_cases[of y] rne_cases[of z] by linarith
qed

lemma pow2_pos [simp]: "0 < (2::real) powi k"
  by (simp add: zero_less_power_int)

lemma pow2_add: "(2::real) powi (a + b) = 2 powi a * 2 powi b"
  by (simp add: power_int_add)

lemma pow2_mono: "a \<le> b \<Longrightarrow> (2::real) powi a \<le> 2 powi b"
  by (simp add: power_int_increasing)

lemma pow2_Suc: "(2::real) powi (e + 1) = 2 * 2 powi e"
  by (simp add: power_int_add)

lemma pow2_53: "(2::real) powi (e + 1) = 2 ^ 53 * 2 powi (e - 52)"
proof -
  have "e + 1 = 53 + (e - 52)" by linarith
  then have "(2::real) powi (e + 1) = 2 powi (53 + (e - 52))" by (rule arg_cong)
  also have "\<dots> = 2 powi 53 * 2 powi (e - 52)" by (rule pow2_add)
  finally show ?thesis by simp
qed

lemma pow2_52: "(2::real) powi e = 2 ^ 52 * 2 powi (e - 52)"
proof -
  have "(2::real) powi e = 2 powi (52 + (e - 52))" by simp
  also have "\<dots> = 2 powi 52 * 2 powi (e - 52)" by (rule pow2_add)
  finally show ?thesis by simp
qed

lemma expoUp_spec:
  "1 \<le> y \<Longrightarrow> e \<le> 1023 \<Longrightarrow>
     e \<le> expoUp y e \<and> expoUp y e \<le> 1023
     \<and> 2 powi expoUp y e \<le> y * 2 powi e
     \<and> (expoUp y e = 1023 \<or> y * 2 powi e < 2 powi (expoUp y e + 1))"
proof (induction y e rule: expoUp.induct)
  case (1 y e)
  show ?case
  proof (cases "y < 2 \<or> 1023 \<le> e")
    case True
    then have r: "expoUp y e = e" by (subst expoUp.simps) simp
    have "2 powi e \<le> y * 2 powi e" using "1.prems"(1) by simp
    moreover have "y < 2 \<Longrightarrow> y * 2 powi e < 2 powi (e + 1)" by (simp add: pow2_Suc)
    ultimately show ?thesis using True r "1.prems"(2) by auto
  next
    case False
    then have r: "expoUp y e = expoUp (y / 2) (e + 1)" by (subst expoUp.simps) simp
    have eq: "y / 2 * 2 powi (e + 1) = y * 2 powi e" by (simp add: pow2_Suc)
    from False have "1 \<le> y / 2" "e + 1 \<le> 1023" by simp_all
    from "1.IH"[OF False this] show ?thesis unfolding r eq by linarith
  qed
qed

lemma expoDown_spec:
  "0 < y \<Longrightarrow> y < 2 \<Longrightarrow> - 1022 \<le> e \<Longrightarrow>
     - 1022 \<le> expoDown y e \<and> expoDown y e \<le> e
     \<and> y * 2 powi e < 2 powi (expoDown y e + 1)
     \<and> (expoDown y e = - 1022 \<or> 2 powi expoDown y e \<le> y * 2 powi e)"
proof (induction y e rule: expoDown.induct)
  case (1 y e)
  show ?case
  proof (cases "1 \<le> y \<or> e \<le> - 1022")
    case True
    then have r: "expoDown y e = e" by (subst expoDown.simps) simp
    have "y * 2 powi e < 2 powi (e + 1)" using "1.prems"(2) by (simp add: pow2_Suc)
    moreover have "1 \<le> y \<Longrightarrow> 2 powi e \<le> y * 2 powi e" by simp
    ultimately show ?thesis using True r "1.prems"(3) by auto
  next
    case False
    then have r: "expoDown y e = expoDown (y * 2) (e - 1)" by (subst expoDown.simps) simp
    have "(2::real) powi e = 2 * 2 powi (e - 1)" using pow2_Suc[of "e - 1"] by simp
    then have eq: "y * 2 * 2 powi (e - 1) = y * 2 powi e" by simp
    from False "1.prems" have "0 < y * 2" "y * 2 < 2" "- 1022 \<le> e - 1" by simp_all
    from "1.IH"[OF False this] show ?thesis unfolding r eq by linarith
  qed
qed

lemma expo_spec:
  assumes "0 < y"
  shows "- 1022 \<le> expo y \<and> expo y \<le> 1023
     \<and> (expo y = - 1022 \<or> 2 powi expo y \<le> y)
     \<and> (expo y = 1023 \<or> y < 2 powi (expo y + 1))"
proof (cases "1 \<le> y")
  case True
  from expoUp_spec[OF True, of 0] show ?thesis using True by (simp add: expo_def)
next
  case False
  with assms have "0 < y" "y < 2" by simp_all
  from expoDown_spec[OF this, of 0] show ?thesis using False by (simp add: expo_def)
qed

lemma expo_mono:
  assumes "0 < x" "x \<le> y"
  shows "expo x \<le> expo y"
proof (rule ccontr)
  assume "\<not> expo x \<le> expo y"
  then have lt: "expo y + 1 \<le> expo x" by simp
  from assms have y: "0 < y" by simp
  from expo_spec[OF assms(1)] expo_spec[OF y] lt
  have a: "2 powi expo x \<le> x" and b: "y < 2 powi (expo y + 1)" by linarith+
  from pow2_mono[OF lt] a b assms(2) show False by linarith
qed

lemma fl_zero [simp]: "fl 0 = 0"
  by (simp add: fl_def)

lemma fl_nonneg: "0 \<le> x \<Longrightarrow> 0 \<le> fl x"
proof -
  assume x: "0 \<le> x"
  have "0 \<le> rne (x / 2 powi (expo \<bar>x\<bar> - 52))"
    using rne_mono[of 0 "x / 2 powi (expo \<bar>x\<bar> - 52)"] x by simp
  then show ?thesis by (simp add: fl_def Let_def)
qed


lemma fl_pos_eq:
  "0 < x \<Longrightarrow> fl x = real_of_int (rne (x / 2 powi (expo x - 52))) * 2 powi (expo x - 52)"
  by (simp add: fl_def Let_def)

lemma fl_upper:
  assumes "0 < x" "expo x < 1023"
  shows "fl x \<le> 2 powi (expo x + 1)"
proof -
  let ?q = "(2::real) powi (expo x - 52)"
  from expo_spec[OF assms(1)] assms(2) have "x < 2 powi (expo x + 1)" by linarith
  also have "(2::real) powi (expo x + 1) = 2 ^ 53 * ?q"
    by (rule pow2_53)
  finally have "x / ?q \<le> real_of_int (2 ^ 53)" by (simp add: pos_divide_le_eq)
  from rne_mono[OF this] have "real_of_int (rne (x / ?q)) \<le> 2 ^ 53"
    by (simp only: rne_of_int) (metis of_int_le_iff of_int_numeral of_int_power)
  then have "real_of_int (rne (x / ?q)) * ?q \<le> 2 ^ 53 * ?q" by simp
  also have "2 ^ 53 * ?q = 2 powi (expo x + 1)"
    by (rule pow2_53[symmetric])
  finally show ?thesis using assms(1) by (simp add: fl_pos_eq)
qed

lemma fl_lower:
  assumes "0 < x" "- 1022 < expo x"
  shows "2 powi expo x \<le> fl x"
proof -
  let ?q = "(2::real) powi (expo x - 52)"
  have e: "(2::real) powi expo x = 2 ^ 52 * ?q"
    by (rule pow2_52)
  from expo_spec[OF assms(1)] assms(2) have "2 powi expo x \<le> x" by linarith
  then have "real_of_int (2 ^ 52) \<le> x / ?q" by (simp add: e pos_le_divide_eq)
  from rne_mono[OF this] have "2 ^ 52 \<le> real_of_int (rne (x / ?q))"
    by (simp only: rne_of_int) (metis of_int_le_iff of_int_numeral of_int_power)
  then have "2 ^ 52 * ?q \<le> real_of_int (rne (x / ?q)) * ?q" by simp
  then show ?thesis using assms(1) e by (simp add: fl_pos_eq)
qed

lemma fl_mono_pos:
  assumes "0 < x" "x \<le> y"
  shows "fl x \<le> fl y"
proof -
  from assms have y: "0 < y" by simp
  have le: "expo x \<le> expo y" by (rule expo_mono[OF assms])
  show ?thesis
  proof (cases "expo x = expo y")
    case True
    let ?q = "(2::real) powi (expo y - 52)"
    have "x / ?q \<le> y / ?q" using assms(2) by (simp add: divide_right_mono)
    from rne_mono[OF this] have "real_of_int (rne (x / ?q)) * ?q \<le> real_of_int (rne (y / ?q)) * ?q"
      by simp
    then show ?thesis using assms(1) y True by (simp add: fl_pos_eq)
  next
    case False
    with le have lt: "expo x + 1 \<le> expo y" by simp
    from expo_spec[OF assms(1)] expo_spec[OF y] lt
    have "expo x < 1023" "- 1022 < expo y" by linarith+
    from fl_upper[OF assms(1) this(1)] fl_lower[OF y this(2)] pow2_mono[OF lt]
    show ?thesis by linarith
  qed
qed

lemma fl_mono_nonneg: "0 \<le> x \<Longrightarrow> x \<le> y \<Longrightarrow> fl x \<le> fl y"
  using fl_mono_pos[of x y] fl_nonneg[of y] by (cases "x = 0") auto


section \<open>Facts about the peak scan\<close>

lemma getPeakLoop_exit:
  "\<not> (i < e \<and> i < int (length cd)) \<Longrightarrow> getPeakLoop cd e stride i acc = Some acc"
  by (subst getPeakLoop.simps) auto

text \<open>With a positive stride the scan returns, and every index it reads lies inside the
  window and inside the channel.\<close>

lemma getPeakLoop_result:
  assumes "1 \<le> stride"
  shows "\<exists>mx rs. getPeakLoop cd e stride i acc = Some (mx, snd acc @ rs)
           \<and> (\<forall>j\<in>set rs. i \<le> j \<and> j < e \<and> j < int (length cd))"
proof (induction "nat (min e (int (length cd)) - i)" arbitrary: i acc rule: less_induct)
  case less
  show ?case
  proof (cases "i < e \<and> i < int (length cd)")
    case False
    then have "getPeakLoop cd e stride i acc = Some (fst acc, snd acc @ [])"
      by (simp add: getPeakLoop_exit)
    then show ?thesis by fastforce
  next
    case True
    let ?acc' = "(case absAt cd i of
             Some val \<Rightarrow> (if val > fst acc then val else fst acc, snd acc @ [i])
           | None \<Rightarrow> (fst acc, snd acc @ [i]))"
    have snd': "snd ?acc' = snd acc @ [i]" by (simp split: option.splits)
    have "nat (min e (int (length cd)) - (i + stride)) < nat (min e (int (length cd)) - i)"
      using True assms by linarith
    from less[OF this, of ?acc'] obtain mx rs where
      r: "getPeakLoop cd e stride (i + stride) ?acc' = Some (mx, snd ?acc' @ rs)"
      and b: "\<forall>j\<in>set rs. i + stride \<le> j \<and> j < e \<and> j < int (length cd)"
      by blast
    have "getPeakLoop cd e stride i acc = getPeakLoop cd e stride (i + stride) ?acc'"
      using True by (subst getPeakLoop.simps) simp
    with r snd' have "getPeakLoop cd e stride i acc = Some (mx, snd acc @ (i # rs))" by simp
    moreover have "\<forall>j\<in>set (i # rs). i \<le> j \<and> j < e \<and> j < int (length cd)"
      using b True assms by auto
    ultimately show ?thesis by blast
  qed
qed

lemma strideOf_pos: "s < e \<Longrightarrow> 1 \<le> strideOf s e"
proof -
  assume "s < e"
  then have "0 < real_of_int (e - s) / 1000" by simp
  then have "0 < \<lceil>real_of_int (e - s) / 1000\<rceil>" by linarith
  then show ?thesis by (simp add: strideOf_def Let_def)
qed

lemma getPeakRun_Ok:
  assumes "channels b \<noteq> []"
  shows "\<exists>mx rs. getPeakRun b t w = Ok (mx, rs)
           \<and> (\<forall>j\<in>set rs. j < int (length (channels b ! 0)))
           \<and> (int (length (channels b ! 0)) \<le> \<lfloor>t * sampleRate b\<rfloor> \<longrightarrow> mx = 0 \<and> rs = [])"
proof -
  let ?s = "\<lfloor>t * sampleRate b\<rfloor>" and ?e = "\<lfloor>(t + w) * sampleRate b\<rfloor>"
  let ?cd = "channels b ! 0"
  have cd: "getChannelData b 0 = Ok ?cd"
    using assms by (simp add: getChannelData_def numberOfChannels_def)
  show ?thesis
  proof (cases "?s < ?e \<and> ?s < int (length ?cd)")
    case True
    then have "1 \<le> strideOf ?s ?e" by (simp add: strideOf_pos)
    from getPeakLoop_result[OF this, of ?cd ?e ?s "(0, [])"] obtain mx rs where
      "getPeakLoop ?cd ?e (strideOf ?s ?e) ?s (0, []) = Some (mx, rs)"
      "\<forall>j\<in>set rs. j < int (length ?cd)" by auto
    then show ?thesis using cd True by (simp add: getPeakRun_def Let_def)
  next
    case False
    then have "getPeakLoop ?cd ?e (strideOf ?s ?e) ?s (0, []) = Some (0, [])"
      by (rule getPeakLoop_exit)
    then show ?thesis using cd by (simp add: getPeakRun_def Let_def)
  qed
qed

lemma peakOrZero_Ok: "hasFirstChannel b \<Longrightarrow> \<exists>v. peakOrZero b t w = Ok v"
proof (cases b)
  case None
  then show ?thesis by (simp add: peakOrZero_def)
next
  case (Some buf)
  assume "hasFirstChannel b"
  with Some have "channels buf \<noteq> []" by (simp add: hasFirstChannel_def)
  from getPeakRun_Ok[OF this, of t w] obtain mx rs where "getPeakRun buf t w = Ok (mx, rs)"
    by blast
  then show ?thesis using Some by (simp add: peakOrZero_def getPeak_def)
qed

section \<open>Facts about the main loop\<close>

lemma peakStep_data:
  "data (peakStep st t a b) = data st @ [\<lparr>time = t, original = a, isolated = b\<rparr>]"
  by (simp add: peakStep_def Let_def)

lemma peakStep_maxOriginalTime:
  "maxOriginalTime (peakStep st t a b) = maxOriginalTime st
     \<or> maxOriginalTime (peakStep st t a b) = t"
  by (simp add: peakStep_def Let_def)

lemma peakStep_maxIsolatedTime:
  "maxIsolatedTime (peakStep st t a b) = maxIsolatedTime st
     \<or> maxIsolatedTime (peakStep st t a b) = t"
  by (simp add: peakStep_def Let_def)

lemma peaksLoop_returns:
  assumes "hasFirstChannel b1" "hasFirstChannel b2"
  shows "\<exists>st'. peaksLoop b1 b2 step n i st = Ok st'"
proof (induction "n - i" arbitrary: i st)
  case 0
  then show ?case by (subst peaksLoop.simps) simp
next
  case (Suc d)
  then have lt: "i < n" and d: "d = n - (i + 1)" by simp_all
  obtain a where a: "peakOrZero b1 (real i * step) step = Ok a"
    using peakOrZero_Ok[OF assms(1)] by blast
  obtain b where b: "peakOrZero b2 (real i * step) step = Ok b"
    using peakOrZero_Ok[OF assms(2)] by blast
  from Suc.hyps(1)[OF d] obtain st' where
    "peaksLoop b1 b2 step n (i + 1) (peakStep st (real i * step) a b) = Ok st'" by blast
  then show ?case using lt a b by (subst peaksLoop.simps) simp
qed

text \<open>What a returning run of the loop has appended and where the tracked maxima lie.\<close>

lemma peaksLoop_inv:
  "peaksLoop b1 b2 step n i st = Ok st' \<Longrightarrow>
     map time (data st') = map time (data st) @ map (\<lambda>k. real k * step) [i..<n]
   \<and> (\<forall>p\<in>set (data st'). p \<in> set (data st) \<or>
         (peakOrZero b1 (time p) step = Ok (original p)
          \<and> peakOrZero b2 (time p) step = Ok (isolated p)))
   \<and> (maxOriginalTime st' = maxOriginalTime st
        \<or> (\<exists>k. i \<le> k \<and> k < n \<and> maxOriginalTime st' = real k * step))
   \<and> (maxIsolatedTime st' = maxIsolatedTime st
        \<or> (\<exists>k. i \<le> k \<and> k < n \<and> maxIsolatedTime st' = real k * step))"
proof (induction b1 b2 step n i st rule: peaksLoop.induct)
  case (1 b1 b2 step n i st)
  show ?case
  proof (cases "i < n")
    case False
    with "1.prems" have "st' = st" by (subst (asm) peaksLoop.simps) simp
    with False show ?thesis by simp
  next
    case True
    from "1.prems" True obtain a b where
      a: "peakOrZero b1 (real i * step) step = Ok a" and
      b: "peakOrZero b2 (real i * step) step = Ok b" and
      r: "peaksLoop b1 b2 step n (i + 1) (peakStep st (real i * step) a b) = Ok st'"
      by (subst (asm) peaksLoop.simps) (auto simp: bindR_def split: res.splits)
    let ?st1 = "peakStep st (real i * step) a b"
    note IH = "1.IH"[OF True a b r]
    have up: "[i..<n] = i # [i + 1..<n]" using True by (simp add: upt_conv_Cons)
    have c1: "map time (data st') = map time (data st) @ map (\<lambda>k. real k * step) [i..<n]"
      using IH by (simp add: peakStep_data up)
    have c2: "\<forall>p\<in>set (data st'). p \<in> set (data st) \<or>
         (peakOrZero b1 (time p) step = Ok (original p)
          \<and> peakOrZero b2 (time p) step = Ok (isolated p))"
    proof
      fix p assume "p \<in> set (data st')"
      with IH have "p \<in> set (data ?st1) \<or> (peakOrZero b1 (time p) step = Ok (original p)
          \<and> peakOrZero b2 (time p) step = Ok (isolated p))" by blast
      then show "p \<in> set (data st) \<or> (peakOrZero b1 (time p) step = Ok (original p)
          \<and> peakOrZero b2 (time p) step = Ok (isolated p))"
        using a b by (auto simp: peakStep_data)
    qed
    have c3: "maxOriginalTime st' = maxOriginalTime st
        \<or> (\<exists>k. i \<le> k \<and> k < n \<and> maxOriginalTime st' = real k * step)"
    proof -
      from IH have "maxOriginalTime st' = maxOriginalTime ?st1
        \<or> (\<exists>k. i + 1 \<le> k \<and> k < n \<and> maxOriginalTime st' = real k * step)" by blast
      then show ?thesis
      proof
        assume e: "maxOriginalTime st' = maxOriginalTime ?st1"
        from peakStep_maxOriginalTime[of st "real i * step" a b] show ?thesis
          using e True by auto
      next
        assume "\<exists>k. i + 1 \<le> k \<and> k < n \<and> maxOriginalTime st' = real k * step"
        then obtain k where "i + 1 \<le> k" "k < n" "maxOriginalTime st' = real k * step" by blast
        then have "i \<le> k \<and> k < n \<and> maxOriginalTime st' = real k * step" by simp
        then show ?thesis by blast
      qed
    qed
    have c4: "maxIsolatedTime st' = maxIsolatedTime st
        \<or> (\<exists>k. i \<le> k \<and> k < n \<and> maxIsolatedTime st' = real k * step)"
    proof -
      from IH have "maxIsolatedTime st' = maxIsolatedTime ?st1
        \<or> (\<exists>k. i + 1 \<le> k \<and> k < n \<and> maxIsolatedTime st' = real k * step)" by blast
      then show ?thesis
      proof
        assume e: "maxIsolatedTime st' = maxIsolatedTime ?st1"
        from peakStep_maxIsolatedTime[of st "real i * step" a b] show ?thesis
          using e True by auto
      next
        assume "\<exists>k. i + 1 \<le> k \<and> k < n \<and> maxIsolatedTime st' = real k * step"
        then obtain k where "i + 1 \<le> k" "k < n" "maxIsolatedTime st' = real k * step" by blast
        then have "i \<le> k \<and> k < n \<and> maxIsolatedTime st' = real k * step" by simp
        then show ?thesis by blast
      qed
    qed
    from c1 c2 c3 c4 show ?thesis by blast
  qed
qed

section \<open>Results on extractAudioPeaks\<close>

lemma extract_zero:
  "maxDuration b1 b2 = 0 \<Longrightarrow> extractAudioPeaks b1 b2 n = Ok \<lparr>points = [], originalPeakRegion = None, isolatedPeakRegion = None\<rparr>"
  by (simp add: extractAudioPeaks_def)

lemma extract_nonzero:
  assumes "maxDuration b1 b2 \<noteq> 0"
    and "peaksLoop b1 b2 (maxDuration b1 b2 / real n) n 0
       \<lparr>data = [], maxOriginalAmplitude = 0, maxOriginalTime = 0,
                  maxIsolatedAmplitude = 0, maxIsolatedTime = 0\<rparr> = Ok st"
  shows "extractAudioPeaks b1 b2 n =
     Ok \<lparr>points = data st,
         originalPeakRegion = map_option (\<lambda>b. regionAround (maxDuration b1 b2)
            (min (maxDuration b1 b2 * 0.1) 5) (maxOriginalTime st) (maxOriginalAmplitude st)) b1,
         isolatedPeakRegion = map_option (\<lambda>b. regionAround (maxDuration b1 b2)
            (min (maxDuration b1 b2 * 0.1) 5) (maxIsolatedTime st) (maxIsolatedAmplitude st)) b2\<rparr>"
  using assms by (simp add: extractAudioPeaks_def Let_def split: option.splits)

lemma extract_Ok_cases:
  assumes "extractAudioPeaks b1 b2 n = Ok r"
  shows "(maxDuration b1 b2 = 0 \<and> r = \<lparr>points = [], originalPeakRegion = None, isolatedPeakRegion = None\<rparr>)
     \<or> (maxDuration b1 b2 \<noteq> 0 \<and> (\<exists>st. peaksLoop b1 b2 (maxDuration b1 b2 / real n) n 0
       \<lparr>data = [], maxOriginalAmplitude = 0, maxOriginalTime = 0,
                  maxIsolatedAmplitude = 0, maxIsolatedTime = 0\<rparr> = Ok st))"
proof (cases "maxDuration b1 b2 = 0")
  case True
  with assms show ?thesis by (simp add: extractAudioPeaks_def)
next
  case False
  with assms show ?thesis
    by (cases "peaksLoop b1 b2 (maxDuration b1 b2 / real n) n 0
       \<lparr>data = [], maxOriginalAmplitude = 0, maxOriginalTime = 0,
                  maxIsolatedAmplitude = 0, maxIsolatedTime = 0\<rparr>")
       (simp_all add: extractAudioPeaks_def Let_def)
qed







lemma maxDuration_nonneg:
  "\<forall>b. b1 = Some b \<or> b2 = Some b \<longrightarrow> 0 \<le> duration b \<Longrightarrow> 0 \<le> maxDuration b1 b2"
  by (cases b1; cases b2) (auto simp: maxDuration_def durationOr0_def)

lemma slot_time_bounds:
  assumes "0 < dur" "k < n"
  shows "0 \<le> real k * (dur / real n) \<and> real k * (dur / real n) < dur"
proof -
  have n: "0 < real n" using assms by simp
  have "real k * (dur / real n) = dur * (real k / real n)" by simp
  moreover have "real k / real n < 1" using assms n by simp
  moreover have "0 \<le> real k / real n" by simp
  ultimately show ?thesis using assms(1)
    by (metis mult.right_neutral mult_less_cancel_left_pos mult_nonneg_nonneg less_eq_real_def)
qed


lemma durationOr0_Some: "durationOr0 (Some b) = duration b"
  by (simp add: durationOr0_def)

lemma maxDuration_is_max:
  assumes "\<exists>b. (b1 = Some b \<or> b2 = Some b) \<and> 0 < duration b"
  shows "0 < maxDuration b1 b2
     \<and> (\<forall>b. b1 = Some b \<or> b2 = Some b \<longrightarrow> duration b \<le> maxDuration b1 b2)
     \<and> (\<exists>b. (b1 = Some b \<or> b2 = Some b) \<and> duration b = maxDuration b1 b2)"
proof (cases b1; cases b2)
  assume "b1 = None" "b2 = None"
  with assms show ?thesis by simp
next
  fix y assume "b1 = None" "b2 = Some y"
  with assms show ?thesis by (auto simp: maxDuration_def durationOr0_def)
next
  fix x assume "b1 = Some x" "b2 = None"
  with assms show ?thesis by (auto simp: maxDuration_def durationOr0_def)
next
  fix x y assume "b1 = Some x" "b2 = Some y"
  with assms show ?thesis by (auto simp: maxDuration_def durationOr0_def max_def)
qed

text \<open>
  Claim C5. When every supplied buffer has a first channel, at least one supplied buffer has
  positive duration and \<open>samples > 0\<close>, \<open>extractAudioPeaks\<close> returns exactly
  \<open>samples\<close> points; point \<open>i\<close> has time \<open>i * (duration / samples)\<close>, where
  \<open>duration\<close> is the largest duration among the supplied buffers; the times are strictly
  increasing and all strictly below \<open>duration\<close>.
\<close>

theorem extractAudioPeaks_points:
  assumes "hasFirstChannel buffer1" and "hasFirstChannel buffer2"
    and "\<exists>b. (buffer1 = Some b \<or> buffer2 = Some b) \<and> 0 < duration b"
    and "0 < samples"
  shows "\<exists>r. extractAudioPeaks buffer1 buffer2 samples = Ok r
     \<and> length (points r) = samples
     \<and> map time (points r)
         = map (\<lambda>i. real i * (maxDuration buffer1 buffer2 / real samples)) [0..<samples]
     \<and> (\<forall>i j. i < j \<and> j < samples \<longrightarrow> time (points r ! i) < time (points r ! j))
     \<and> (\<forall>i<samples. time (points r ! i) < maxDuration buffer1 buffer2)
     \<and> (\<forall>b. buffer1 = Some b \<or> buffer2 = Some b \<longrightarrow> duration b \<le> maxDuration buffer1 buffer2)
     \<and> (\<exists>b. (buffer1 = Some b \<or> buffer2 = Some b) \<and> duration b = maxDuration buffer1 buffer2)"
proof -
  let ?dur = "maxDuration buffer1 buffer2"
  let ?step = "?dur / real samples"
  from maxDuration_is_max[OF assms(3)] have pos: "0 < ?dur"
    and mx: "\<forall>b. buffer1 = Some b \<or> buffer2 = Some b \<longrightarrow> duration b \<le> ?dur"
    and ex: "\<exists>b. (buffer1 = Some b \<or> buffer2 = Some b) \<and> duration b = ?dur"
    by blast+
  from peaksLoop_returns[OF assms(1,2)] obtain st where
    st: "peaksLoop buffer1 buffer2 ?step samples 0
       \<lparr>data = [], maxOriginalAmplitude = 0, maxOriginalTime = 0,
                  maxIsolatedAmplitude = 0, maxIsolatedTime = 0\<rparr> = Ok st" by blast
  from pos have nz: "?dur \<noteq> 0" by simp
  let ?r = "\<lparr>points = data st,
         originalPeakRegion = map_option (\<lambda>b. regionAround ?dur
            (min (?dur * 0.1) 5) (maxOriginalTime st) (maxOriginalAmplitude st)) buffer1,
         isolatedPeakRegion = map_option (\<lambda>b. regionAround ?dur
            (min (?dur * 0.1) 5) (maxIsolatedTime st) (maxIsolatedAmplitude st)) buffer2\<rparr>"
  have r: "extractAudioPeaks buffer1 buffer2 samples = Ok ?r"
    by (rule extract_nonzero[OF nz st])
  from peaksLoop_inv[OF st] have
    times: "map time (data st) = map (\<lambda>k. real k * ?step) [0..<samples]" by simp
  then have "length (map time (data st)) = samples" by simp
  then have len: "length (data st) = samples" by simp
  have nth: "time (data st ! i) = real i * ?step" if "i < samples" for i
  proof -
    have "time (data st ! i) = map time (data st) ! i" using that len by simp
    also have "\<dots> = real i * ?step" using that by (simp add: times)
    finally show ?thesis .
  qed
  have stp: "0 < ?step" using pos assms(4) by simp
  have incr: "\<forall>i j. i < j \<and> j < samples \<longrightarrow> time (data st ! i) < time (data st ! j)"
  proof (intro allI impI)
    fix i j assume ij: "i < j \<and> j < samples"
    then have "real i < real j" by simp
    then have "real i * ?step < real j * ?step" using stp by (rule mult_strict_right_mono)
    then show "time (data st ! i) < time (data st ! j)" using ij nth by simp
  qed
  have below: "\<forall>i<samples. time (data st ! i) < ?dur"
    using slot_time_bounds[OF pos] nth by simp
  show ?thesis
    using r len times incr below mx ex by simp
qed


lemma getPeak_beyond_end:
  assumes "getPeak b t w = Ok v"
    and "int (length (channels b ! 0)) \<le> \<lfloor>t * sampleRate b\<rfloor>"
  shows "v = 0"
proof (cases "channels b = []")
  case True
  then have "getPeak b t w = Throw IndexSizeError"
    by (simp add: getPeak_def getPeakRun_def getChannelData_def numberOfChannels_def)
  with assms(1) show ?thesis by simp
next
  case False
  from getPeakRun_Ok[OF this, of t w] assms(2) have "getPeakRun b t w = Ok (0, [])" by auto
  with assms(1) show ?thesis by (simp add: getPeak_def)
qed

text \<open>
  Claim C10. Every run of \<open>getPeak\<close> on a buffer with a first channel returns, and each
  index at which it reads the channel is below the channel's length; when the window starts
  at or beyond the end of the channel nothing is read and the peak is 0. Accordingly, in
  every result of \<open>extractAudioPeaks\<close>, a point whose window starts at or beyond the
  end of a buffer has amplitude 0 for that buffer.
\<close>

theorem getPeak_reads_within_channel:
  assumes "extractAudioPeaks buffer1 buffer2 samples = Ok r"
  shows "(\<forall>b t w. channels b \<noteq> [] \<longrightarrow>
            (\<exists>mx rs. getPeakRun b t w = Ok (mx, rs) \<and> getPeak b t w = Ok mx
               \<and> (\<forall>j\<in>set rs. j < int (length (channels b ! 0)))
               \<and> (int (length (channels b ! 0)) \<le> \<lfloor>t * sampleRate b\<rfloor> \<longrightarrow> mx = 0 \<and> rs = [])))
     \<and> (\<forall>p\<in>set (points r).
           (\<forall>b. buffer1 = Some b \<and> int (length (channels b ! 0)) \<le> \<lfloor>time p * sampleRate b\<rfloor>
                \<longrightarrow> original p = 0)
         \<and> (\<forall>b. buffer2 = Some b \<and> int (length (channels b ! 0)) \<le> \<lfloor>time p * sampleRate b\<rfloor>
                \<longrightarrow> isolated p = 0))"
proof
  show "\<forall>b t w. channels b \<noteq> [] \<longrightarrow>
            (\<exists>mx rs. getPeakRun b t w = Ok (mx, rs) \<and> getPeak b t w = Ok mx
               \<and> (\<forall>j\<in>set rs. j < int (length (channels b ! 0)))
               \<and> (int (length (channels b ! 0)) \<le> \<lfloor>t * sampleRate b\<rfloor> \<longrightarrow> mx = 0 \<and> rs = []))"
  proof (intro allI impI)
    fix b :: AudioBuffer and t w :: real
    assume "channels b \<noteq> []"
    from getPeakRun_Ok[OF this, of t w] obtain mx rs where
      run: "getPeakRun b t w = Ok (mx, rs)"
      and rest: "(\<forall>j\<in>set rs. j < int (length (channels b ! 0)))
           \<and> (int (length (channels b ! 0)) \<le> \<lfloor>t * sampleRate b\<rfloor> \<longrightarrow> mx = 0 \<and> rs = [])"
      by blast
    from run have "getPeak b t w = Ok mx" by (simp add: getPeak_def)
    with run rest show "\<exists>mx rs. getPeakRun b t w = Ok (mx, rs) \<and> getPeak b t w = Ok mx
               \<and> (\<forall>j\<in>set rs. j < int (length (channels b ! 0)))
               \<and> (int (length (channels b ! 0)) \<le> \<lfloor>t * sampleRate b\<rfloor> \<longrightarrow> mx = 0 \<and> rs = [])"
      by blast
  qed
next
  let ?dur = "maxDuration buffer1 buffer2"
  let ?step = "?dur / real samples"
  from extract_Ok_cases[OF assms] show "\<forall>p\<in>set (points r).
           (\<forall>b. buffer1 = Some b \<and> int (length (channels b ! 0)) \<le> \<lfloor>time p * sampleRate b\<rfloor>
                \<longrightarrow> original p = 0)
         \<and> (\<forall>b. buffer2 = Some b \<and> int (length (channels b ! 0)) \<le> \<lfloor>time p * sampleRate b\<rfloor>
                \<longrightarrow> isolated p = 0)"
  proof
    assume "?dur = 0 \<and> r = \<lparr>points = [], originalPeakRegion = None, isolatedPeakRegion = None\<rparr>"
    then show ?thesis by simp
  next
    assume "?dur \<noteq> 0 \<and> (\<exists>st. peaksLoop buffer1 buffer2 ?step samples 0
       \<lparr>data = [], maxOriginalAmplitude = 0, maxOriginalTime = 0,
                  maxIsolatedAmplitude = 0, maxIsolatedTime = 0\<rparr> = Ok st)"
    then obtain st where nz: "?dur \<noteq> 0" and
      st: "peaksLoop buffer1 buffer2 ?step samples 0
       \<lparr>data = [], maxOriginalAmplitude = 0, maxOriginalTime = 0,
                  maxIsolatedAmplitude = 0, maxIsolatedTime = 0\<rparr> = Ok st" by blast
    from extract_nonzero[OF nz st] assms have pts: "points r = data st" by auto
    from peaksLoop_inv[OF st] have pk: "\<forall>p\<in>set (data st).
        peakOrZero buffer1 (time p) ?step = Ok (original p)
        \<and> peakOrZero buffer2 (time p) ?step = Ok (isolated p)" by simp
    show ?thesis
    proof
      fix p assume "p \<in> set (points r)"
      with pts pk have a: "peakOrZero buffer1 (time p) ?step = Ok (original p)"
        and b: "peakOrZero buffer2 (time p) ?step = Ok (isolated p)" by simp_all
      have "\<forall>b. buffer1 = Some b \<and> int (length (channels b ! 0)) \<le> \<lfloor>time p * sampleRate b\<rfloor>
                \<longrightarrow> original p = 0"
        using a getPeak_beyond_end by (auto simp: peakOrZero_def)
      moreover have "\<forall>b. buffer2 = Some b \<and> int (length (channels b ! 0)) \<le> \<lfloor>time p * sampleRate b\<rfloor>
                \<longrightarrow> isolated p = 0"
        using b getPeak_beyond_end by (auto simp: peakOrZero_def)
      ultimately show "(\<forall>b. buffer1 = Some b \<and> int (length (channels b ! 0)) \<le> \<lfloor>time p * sampleRate b\<rfloor>
                \<longrightarrow> original p = 0)
         \<and> (\<forall>b. buffer2 = Some b \<and> int (length (channels b ! 0)) \<le> \<lfloor>time p * sampleRate b\<rfloor>
                \<longrightarrow> isolated p = 0)" by blast
    qed
  qed
qed

section \<open>The results at concrete inputs\<close>

lemma longShort_run:
  "extractAudioPeaks (Some longBuf) (Some shortBuf) 4 = Ok \<lparr>points =
       [\<lparr>time = 0, original = 1, isolated = 3 / 4\<rparr>,
        \<lparr>time = 1, original = 1 / 4, isolated = 1 / 2\<rparr>,
        \<lparr>time = 2, original = 1 / 8, isolated = 0\<rparr>,
        \<lparr>time = 3, original = 1 / 2, isolated = 0\<rparr>],
       originalPeakRegion = Some \<lparr>start = 0, endT = 1 / 5, amplitude = 1\<rparr>,
       isolatedPeakRegion = Some \<lparr>start = 0, endT = 1 / 5, amplitude = 3 / 4\<rparr>\<rparr>"
  by code_simp

theorem extractAudioPeaks_points_witness:
  "\<exists>r. extractAudioPeaks (Some tenSecBuf) (Some eightSecBuf) 5 = Ok r
     \<and> length (points r) = 5
     \<and> map time (points r) = [0, 2, 4, 6, 8]
     \<and> maxDuration (Some tenSecBuf) (Some eightSecBuf) = 10"
proof -
  have h1: "hasFirstChannel (Some tenSecBuf)" by (simp add: hasFirstChannel_def tenSecBuf_def)
  have h2: "hasFirstChannel (Some eightSecBuf)"
    by (simp add: hasFirstChannel_def eightSecBuf_def)
  have h3: "\<exists>b. (Some tenSecBuf = Some b \<or> Some eightSecBuf = Some b) \<and> 0 < duration b"
    by (rule exI[of _ tenSecBuf]) (simp add: tenSecBuf_def)
  have h4: "0 < (5::nat)" by simp
  have d: "maxDuration (Some tenSecBuf) (Some eightSecBuf) = 10"
    by (simp add: maxDuration_def durationOr0_def tenSecBuf_def eightSecBuf_def)
  have u: "[0..<5] = [0, 1, 2, 3, 4]" by (simp add: upt_rec)
  from extractAudioPeaks_points[OF h1 h2 h3 h4] obtain r where
    "extractAudioPeaks (Some tenSecBuf) (Some eightSecBuf) 5 = Ok r"
    "length (points r) = 5"
    "map time (points r) = map (\<lambda>i. real i * (maxDuration (Some tenSecBuf) (Some eightSecBuf) / real 5)) [0..<5]"
    by blast
  then show ?thesis using d u by simp
qed





theorem getPeak_reads_within_channel_witness:
  "\<exists>r mx rs. extractAudioPeaks (Some longBuf) (Some shortBuf) 4 = Ok r
     \<and> time (points r ! 2) = 2 \<and> isolated (points r ! 2) = 0
     \<and> getPeakRun shortBuf 1 1 = Ok (mx, rs) \<and> list_all (\<lambda>j. j < 4) rs"
proof -
  let ?p = "\<lparr>time = 2, original = 1 / 8, isolated = 0\<rparr>"
  let ?r = "\<lparr>points =
       [\<lparr>time = 0, original = 1, isolated = 3 / 4\<rparr>,
        \<lparr>time = 1, original = 1 / 4, isolated = 1 / 2\<rparr>,
        ?p,
        \<lparr>time = 3, original = 1 / 2, isolated = 0\<rparr>],
       originalPeakRegion = Some \<lparr>start = 0, endT = 1 / 5, amplitude = 1\<rparr>,
       isolatedPeakRegion = Some \<lparr>start = 0, endT = 1 / 5, amplitude = 3 / 4\<rparr>\<rparr>"
  note th = getPeak_reads_within_channel[OF longShort_run]
  have ch: "channels shortBuf \<noteq> []" by (simp add: shortBuf_def)
  from th ch obtain mx rs where run: "getPeakRun shortBuf 1 1 = Ok (mx, rs)"
    and rd: "\<forall>j\<in>set rs. j < int (length (channels shortBuf ! 0))" by blast
  from rd have rd': "list_all (\<lambda>j. j < 4) rs" by (simp add: shortBuf_def list_all_iff)
  from th have "\<forall>p\<in>set (points ?r). (\<forall>b. Some shortBuf = Some b
        \<and> int (length (channels b ! 0)) \<le> \<lfloor>time p * sampleRate b\<rfloor> \<longrightarrow> isolated p = 0)"
    by blast
  then have "int (length (channels shortBuf ! 0)) \<le> \<lfloor>time ?p * sampleRate shortBuf\<rfloor>
      \<longrightarrow> isolated ?p = 0" by simp
  then have "isolated (points ?r ! 2) = 0" by simp
  with longShort_run run rd' show ?thesis by fastforce
qed

text \<open>
  Claim C7 as stated fails: with \<open>samples = 0\<close> and a supplied buffer of non-zero
  duration no point is produced, but a peak region is still returned for that buffer.
\<close>

theorem samples0_region_counterexample:
  "extractAudioPeaks (Some shortBuf) None 0 = Ok \<lparr>points = [],
       originalPeakRegion = Some \<lparr>start = 0, endT = 1 / 10, amplitude = 0\<rparr>,
       isolatedPeakRegion = None\<rparr>"
  by (simp add: extractAudioPeaks_def maxDuration_def durationOr0_def shortBuf_def
       peaksLoop.simps regionAround_def subD_def addD_def)

text \<open>
  Claim C7, amended. \<open>extractAudioPeaks\<close> returns no points and no regions when both
  buffers are absent and whenever the overall duration is 0. With \<open>samples = 0\<close> and a
  positive duration it returns no points, and for each supplied buffer the region from 0 to
  \<open>min (duration * 0.1) 5 / 2\<close> with amplitude 0. None of these calls throws.
\<close>

theorem extractAudioPeaks_degenerate:
  "extractAudioPeaks None None samples
     = Ok \<lparr>points = [], originalPeakRegion = None, isolatedPeakRegion = None\<rparr>
   \<and> (maxDuration buffer1 buffer2 = 0 \<longrightarrow>
        extractAudioPeaks buffer1 buffer2 samples
          = Ok \<lparr>points = [], originalPeakRegion = None, isolatedPeakRegion = None\<rparr>)
   \<and> (0 < maxDuration buffer1 buffer2 \<longrightarrow>
        extractAudioPeaks buffer1 buffer2 0
          = Ok \<lparr>points = [],
                originalPeakRegion = map_option (\<lambda>b.
                  \<lparr>start = 0, endT = min (maxDuration buffer1 buffer2 * 0.1) 5 / 2,
                   amplitude = 0\<rparr>) buffer1,
                isolatedPeakRegion = map_option (\<lambda>b.
                  \<lparr>start = 0, endT = min (maxDuration buffer1 buffer2 * 0.1) 5 / 2,
                   amplitude = 0\<rparr>) buffer2\<rparr>)"
proof (intro conjI impI)
  show "extractAudioPeaks None None samples
     = Ok \<lparr>points = [], originalPeakRegion = None, isolatedPeakRegion = None\<rparr>"
    by (simp add: extract_zero maxDuration_def durationOr0_def)
next
  assume "maxDuration buffer1 buffer2 = 0"
  then show "extractAudioPeaks buffer1 buffer2 samples
          = Ok \<lparr>points = [], originalPeakRegion = None, isolatedPeakRegion = None\<rparr>"
    by (rule extract_zero)
next
  let ?dur = "maxDuration buffer1 buffer2"
  assume pos: "0 < ?dur"
  then have nz: "?dur \<noteq> 0" by simp
  have lp: "peaksLoop buffer1 buffer2 (?dur / real 0) 0 0
       \<lparr>data = [], maxOriginalAmplitude = 0, maxOriginalTime = 0,
                  maxIsolatedAmplitude = 0, maxIsolatedTime = 0\<rparr>
     = Ok \<lparr>data = [], maxOriginalAmplitude = 0, maxOriginalTime = 0,
                  maxIsolatedAmplitude = 0, maxIsolatedTime = 0\<rparr>"
    by (subst peaksLoop.simps) simp
  have reg: "regionAround ?dur (min (?dur * 0.1) 5) 0 0
      = \<lparr>start = 0, endT = min (?dur * 0.1) 5 / 2, amplitude = 0\<rparr>"
    using pos by (simp add: regionAround_def subD_def addD_def min_def max_def)
  from extract_nonzero[OF nz lp] reg
  show "extractAudioPeaks buffer1 buffer2 0
          = Ok \<lparr>points = [],
                originalPeakRegion = map_option (\<lambda>b.
                  \<lparr>start = 0, endT = min (?dur * 0.1) 5 / 2, amplitude = 0\<rparr>) buffer1,
                isolatedPeakRegion = map_option (\<lambda>b.
                  \<lparr>start = 0, endT = min (?dur * 0.1) 5 / 2, amplitude = 0\<rparr>) buffer2\<rparr>"
    by simp
qed

theorem extractAudioPeaks_degenerate_witness:
  "0 < maxDuration (Some longBuf) None
   \<and> extractAudioPeaks (Some longBuf) None 0
       = Ok \<lparr>points = [],
             originalPeakRegion = Some \<lparr>start = 0, endT = 1 / 5, amplitude = 0\<rparr>,
             isolatedPeakRegion = None\<rparr>
   \<and> maxDuration (Some (shortBuf\<lparr>duration := 0\<rparr>)) None = 0
   \<and> extractAudioPeaks (Some (shortBuf\<lparr>duration := 0\<rparr>)) None 3
       = Ok \<lparr>points = [], originalPeakRegion = None, isolatedPeakRegion = None\<rparr>"
proof -
  have d: "maxDuration (Some longBuf) None = 4"
    by (simp add: maxDuration_def durationOr0_def longBuf_def)
  have z: "maxDuration (Some (shortBuf\<lparr>duration := 0\<rparr>)) None = 0"
    by (simp add: maxDuration_def durationOr0_def)
  from extractAudioPeaks_degenerate[of 3 "Some (shortBuf\<lparr>duration := 0\<rparr>)" None] z
  have a: "extractAudioPeaks (Some (shortBuf\<lparr>duration := 0\<rparr>)) None 3
       = Ok \<lparr>points = [], originalPeakRegion = None, isolatedPeakRegion = None\<rparr>" by blast
  from extractAudioPeaks_degenerate[of 0 "Some longBuf" None] d
  have b: "extractAudioPeaks (Some longBuf) None 0
       = Ok \<lparr>points = [],
             originalPeakRegion = Some \<lparr>start = 0, endT = 1 / 5, amplitude = 0\<rparr>,
             isolatedPeakRegion = None\<rparr>" by simp
  from a b d z show ?thesis by simp
qed

section \<open>Results on audioBufferToWav\<close>

lemma length_le32 [simp]: "length (le32 n) = 4"
  by (simp add: le32_def)

lemma length_le16 [simp]: "length (le16 n) = 2"
  by (simp add: le16_def)

lemma setUint32_writerAt:
  "4 \<le> k \<Longrightarrow> setUint32 d (writerAt xs k) = Ok (writerAt (xs @ le32 (toUint32 d)) (k - 4))"
  by (simp add: setUint32_def writerAt_def viewSet_def)

lemma setUint16_writerAt:
  "2 \<le> k \<Longrightarrow> setUint16 d (writerAt xs k) = Ok (writerAt (xs @ le16 (toUint16 d)) (k - 2))"
  by (simp add: setUint16_def writerAt_def viewSet_def)

lemma pos_writerAt: "pos (writerAt xs k) = length xs"
  by (simp add: writerAt_def)

lemma toUint32_consts:
  "toUint32 0x46464952 = 1179011410" "toUint32 0x45564157 = 1163280727"
  "toUint32 0x20746d66 = 544501094" "toUint32 0x61746164 = 1635017060"
  "toUint32 16 = 16" "toUint16 1 = 1" "toUint16 16 = 16"
  by (simp_all add: toUint32_def toUint16_def truncR_def)

lemma le32_tags:
  "le32 1179011410 = [82, 73, 70, 70]" "le32 1163280727 = [87, 65, 86, 69]"
  "le32 544501094 = [102, 109, 116, 32]" "le32 1635017060 = [100, 97, 116, 97]"
  by (simp_all add: le32_def)

lemma writeHeader_result:
  assumes "44 \<le> len"
  shows "writeHeader buffer (int len) \<lparr>view = replicate len 0, pos = 0\<rparr>
           = Ok (writerAt (wavHeader buffer (len - 44)) (len - 44))"
proof -
  have w0: "\<lparr>view = replicate len 0, pos = 0\<rparr> = writerAt [] len"
    by (simp add: writerAt_def)
  have a: "real_of_int (int len - 8) = real (len - 44 + 36)" using assms by simp
  have b: "real_of_int (int len - 40 - 4) = real (len - 44)" using assms by simp
  show ?thesis
    unfolding w0 writeHeader_def Let_def
    using assms
    by (simp add: setUint32_writerAt setUint16_writerAt pos_writerAt toUint32_consts le32_tags
          a b wavHeader_def)
qed


lemma length_wavHeader [simp]: "length (wavHeader buffer n) = 44"
  by (simp add: wavHeader_def)

lemma writeFrames_skip: "len \<le> p \<Longrightarrow> writeFrames chs n len p off v = Ok v"
  by (subst writeFrames.simps) simp

lemma viewSet_Ok:
  "off + length bs \<le> length v \<Longrightarrow>
     \<exists>v'. viewSet v off bs = Ok v' \<and> length v' = length v \<and> take off v' = take off v"
  by (simp add: viewSet_def)

lemma writeFrame_Ok:
  "n \<le> length chs \<Longrightarrow> 44 + off + 2 * (n - i) \<le> length v \<Longrightarrow>
     \<exists>v'. writeFrame chs n p i off v = Ok (off + 2 * (n - i), v')
          \<and> length v' = length v \<and> take (44 + off) v' = take (44 + off) v"
proof (induction "n - i" arbitrary: i off v)
  case 0
  then show ?case by (subst writeFrame.simps) simp
next
  case (Suc d)
  then have lt: "i < n" and d: "d = n - (i + 1)" by simp_all
  from lt Suc.prems(1) obtain x where x: "sampleAt chs i p = Ok x"
    by (simp add: sampleAt_def)
  have "44 + off + length (le16 (nat (scaleSample (clampSample x) mod 2 ^ 16))) \<le> length v"
    using Suc.prems(2) lt by simp
  from viewSet_Ok[OF this] obtain v1 where
    v1: "setInt16 v (44 + off) (scaleSample (clampSample x)) = Ok v1"
    and l1: "length v1 = length v" and t1: "take (44 + off) v1 = take (44 + off) v"
    by (auto simp: setInt16_def)
  have "44 + (off + 2) + 2 * (n - (i + 1)) \<le> length v1" using Suc.prems(2) lt l1 by simp
  from Suc.hyps(1)[OF d Suc.prems(1) this] obtain v' where
    r: "writeFrame chs n p (i + 1) (off + 2) v1 = Ok (off + 2 + 2 * (n - (i + 1)), v')"
    and l: "length v' = length v1" and t: "take (44 + (off + 2)) v' = take (44 + (off + 2)) v1"
    by blast
  have e: "off + 2 + 2 * (n - (i + 1)) = off + 2 * (n - i)" using lt by simp
  have "take (44 + off) v' = take (44 + off) (take (44 + (off + 2)) v')" by simp
  also have "\<dots> = take (44 + off) (take (44 + (off + 2)) v1)" by (simp only: t)
  also have "\<dots> = take (44 + off) v1" by simp
  finally have t': "take (44 + off) v' = take (44 + off) v" using t1 by simp
  have "writeFrame chs n p i off v = Ok (off + 2 * (n - i), v')"
    using lt x v1 r e by (subst writeFrame.simps) simp
  with l l1 t' show ?case by simp
qed

lemma writeFrames_Ok:
  "n \<le> length chs \<Longrightarrow> 44 + off + 2 * n * (len - p) \<le> length v \<Longrightarrow>
     \<exists>v'. writeFrames chs n len p off v = Ok v'
          \<and> length v' = length v \<and> take (44 + off) v' = take (44 + off) v"
proof (induction "len - p" arbitrary: p off v)
  case 0
  then show ?case by (simp add: writeFrames_skip)
next
  case (Suc d)
  then have lt: "p < len" and d: "d = len - (p + 1)" by simp_all
  have split: "2 * n * (len - p) = 2 * n + 2 * n * (len - (p + 1))"
    using lt by (metis Suc.hyps(2) d mult_Suc_right)
  have "44 + off + 2 * (n - 0) \<le> length v" using Suc.prems(2) split by simp
  from writeFrame_Ok[OF Suc.prems(1) this, of p] obtain v1 where
    f: "writeFrame chs n p 0 off v = Ok (off + 2 * n, v1)"
    and l1: "length v1 = length v" and t1: "take (44 + off) v1 = take (44 + off) v"
    by auto
  have "44 + (off + 2 * n) + 2 * n * (len - (p + 1)) \<le> length v1"
    using Suc.prems(2) split l1 by simp
  from Suc.hyps(1)[OF d Suc.prems(1) this] obtain v' where
    r: "writeFrames chs n len (p + 1) (off + 2 * n) v1 = Ok v'"
    and l: "length v' = length v1"
    and t: "take (44 + (off + 2 * n)) v' = take (44 + (off + 2 * n)) v1"
    by blast
  have "take (44 + off) v' = take (44 + off) (take (44 + (off + 2 * n)) v')" by simp
  also have "\<dots> = take (44 + off) (take (44 + (off + 2 * n)) v1)" by (simp only: t)
  also have "\<dots> = take (44 + off) v1" by simp
  finally have t': "take (44 + off) v' = take (44 + off) v" using t1 by simp
  have "writeFrames chs n len p off v = Ok v'"
    using lt f r by (subst writeFrames.simps) simp
  with l l1 t' show ?case by simp
qed

text \<open>Length and header of every output.\<close>

lemma audioBufferToWav_layout:
  "\<exists>bytes. audioBufferToWav buffer = Ok bytes
     \<and> length bytes = 44 + lengthB buffer * numberOfChannels buffer * 2
     \<and> take 44 bytes = wavHeader buffer (lengthB buffer * numberOfChannels buffer * 2)"
proof -
  let ?n = "numberOfChannels buffer"
  let ?L = "lengthB buffer * ?n * 2"
  let ?v = "wavHeader buffer ?L @ replicate ?L 0"
  have h: "writeHeader buffer (int (?L + 44)) \<lparr>view = replicate (?L + 44) 0, pos = 0\<rparr>
             = Ok (writerAt (wavHeader buffer ?L) ?L)"
    using writeHeader_result[of "?L + 44" buffer] by simp
  have n: "?n \<le> length (channels buffer)" by (simp add: numberOfChannels_def)
  have "2 * ?n * (lengthB buffer - 44) \<le> ?L" by (simp add: algebra_simps)
  then have "44 + 0 + 2 * ?n * (lengthB buffer - 44) \<le> length ?v" by simp
  from writeFrames_Ok[OF n this] obtain v' where
    "writeFrames (channels buffer) ?n (lengthB buffer) 44 0 ?v = Ok v'"
    "length v' = length ?v" "take (44 + 0) v' = take (44 + 0) ?v" by blast
  then show ?thesis using h
    by (simp add: audioBufferToWav_def Let_def writerAt_def)
qed

text \<open>A buffer of at most 44 frames is encoded as a header followed by zero bytes only.\<close>

lemma audioBufferToWav_short:
  assumes "lengthB buffer \<le> 44"
  shows "audioBufferToWav buffer
           = Ok (wavHeader buffer (lengthB buffer * numberOfChannels buffer * 2)
                 @ replicate (lengthB buffer * numberOfChannels buffer * 2) 0)"
proof -
  let ?L = "lengthB buffer * numberOfChannels buffer * 2"
  have h: "writeHeader buffer (int (?L + 44)) \<lparr>view = replicate (?L + 44) 0, pos = 0\<rparr>
             = Ok (writerAt (wavHeader buffer ?L) ?L)"
    using writeHeader_result[of "?L + 44" buffer] by simp
  show ?thesis using h assms
    by (simp add: audioBufferToWav_def Let_def writerAt_def writeFrames_skip)
qed

text \<open>With no channel at all the output is the header alone, with data length 0.\<close>

lemma audioBufferToWav_no_channels:
  assumes "numberOfChannels buffer = 0"
  shows "audioBufferToWav buffer = Ok (wavHeader buffer 0)"
proof -
  from audioBufferToWav_layout[of buffer] assms obtain bytes where
    "audioBufferToWav buffer = Ok bytes" "length bytes = 44"
    "take 44 bytes = wavHeader buffer 0" by auto
  then show ?thesis by simp
qed

text \<open>
  Claim C1. The claim's scenario run on the code: a buffer of one channel and one sample of
  value 1.0. The sample converts to 32767 (bytes FF 7F), but the frame loop starts at the
  header cursor's value 44 and is never entered, so the data chunk is 00 00. The second
  defect: a sample of -0.25 is scaled by 32767 (giving -8191), where scaling a negative
  sample by 32768 gives -8192.
\<close>

theorem wav_one_sample_not_written:
  "audioBufferToWav oneSampleBuf
     = Ok ([82, 73, 70, 70, 38, 0, 0, 0, 87, 65, 86, 69, 102, 109, 116, 32, 16, 0, 0, 0,
            1, 0, 1, 0, 68, 172, 0, 0, 136, 88, 1, 0, 2, 0, 16, 0, 100, 97, 116, 97,
            2, 0, 0, 0] @ [0, 0])
   \<and> le16 (nat (scaleSample (clampSample (Some 1)) mod 2 ^ 16)) = [255, 127]
   \<and> scaleSample (clampSample (Some (- 1 / 4))) = - 8191
   \<and> toInt32 (- 1 / 4 * 32768) = - 8192"
proof -
  have l: "lengthB oneSampleBuf \<le> 44" by (simp add: oneSampleBuf_def)
  have "wavHeader oneSampleBuf (lengthB oneSampleBuf * numberOfChannels oneSampleBuf * 2)
      = [82, 73, 70, 70, 38, 0, 0, 0, 87, 65, 86, 69, 102, 109, 116, 32, 16, 0, 0, 0,
            1, 0, 1, 0, 68, 172, 0, 0, 136, 88, 1, 0, 2, 0, 16, 0, 100, 97, 116, 97,
            2, 0, 0, 0]"
    by (simp add: wavHeader_def oneSampleBuf_def numberOfChannels_def le32_def le16_def
          toUint32_def toUint16_def truncR_def)
  moreover have "replicate (lengthB oneSampleBuf * numberOfChannels oneSampleBuf * 2) 0
      = [0, 0::nat]"
    by (simp add: oneSampleBuf_def numberOfChannels_def numeral_2_eq_2)
  ultimately have a: "audioBufferToWav oneSampleBuf
     = Ok ([82, 73, 70, 70, 38, 0, 0, 0, 87, 65, 86, 69, 102, 109, 116, 32, 16, 0, 0, 0,
            1, 0, 1, 0, 68, 172, 0, 0, 136, 88, 1, 0, 2, 0, 16, 0, 100, 97, 116, 97,
            2, 0, 0, 0] @ [0, 0])"
    using audioBufferToWav_short[OF l] by simp
  have b: "le16 (nat (scaleSample (clampSample (Some 1)) mod 2 ^ 16)) = [255, 127]"
    by (simp add: scaleSample_def clampSample_def toInt32_def truncR_def le16_def)
  have c: "scaleSample (clampSample (Some (- 1 / 4))) = - 8191"
    by (simp add: scaleSample_def clampSample_def toInt32_def truncR_def)
  have d: "toInt32 (- 1 / 4 * 32768) = - 8192"
    by (simp add: toInt32_def truncR_def)
  from a b c d show ?thesis by blast
qed

text \<open>
  Claim C6. A buffer of two channels and one frame, samples 0.5 and -1.0: the output has the
  claimed length 48 and the claimed header, but its data chunk is four zero bytes, where the
  interleaved samples would be FF 3F 00 80.
\<close>

theorem wav_two_channel_frame_not_written:
  "audioBufferToWav twoChannelBuf
     = Ok ([82, 73, 70, 70, 40, 0, 0, 0, 87, 65, 86, 69, 102, 109, 116, 32, 16, 0, 0, 0,
            1, 0, 2, 0, 64, 31, 0, 0, 0, 125, 0, 0, 4, 0, 16, 0, 100, 97, 116, 97,
            4, 0, 0, 0] @ [0, 0, 0, 0])
   \<and> le16 (nat (scaleSample (clampSample (Some (1 / 2))) mod 2 ^ 16)) = [255, 63]
   \<and> le16 (nat (scaleSample (clampSample (Some (- 1))) mod 2 ^ 16)) = [0, 128]"
proof -
  have l: "lengthB twoChannelBuf \<le> 44" by (simp add: twoChannelBuf_def)
  have "wavHeader twoChannelBuf (lengthB twoChannelBuf * numberOfChannels twoChannelBuf * 2)
      = [82, 73, 70, 70, 40, 0, 0, 0, 87, 65, 86, 69, 102, 109, 116, 32, 16, 0, 0, 0,
            1, 0, 2, 0, 64, 31, 0, 0, 0, 125, 0, 0, 4, 0, 16, 0, 100, 97, 116, 97,
            4, 0, 0, 0]"
    by (simp add: wavHeader_def twoChannelBuf_def numberOfChannels_def le32_def le16_def
          toUint32_def toUint16_def truncR_def)
  moreover have "replicate (lengthB twoChannelBuf * numberOfChannels twoChannelBuf * 2) 0
      = [0, 0, 0, 0::nat]"
    by (simp add: twoChannelBuf_def numberOfChannels_def eval_nat_numeral)
  ultimately have a: "audioBufferToWav twoChannelBuf
     = Ok ([82, 73, 70, 70, 40, 0, 0, 0, 87, 65, 86, 69, 102, 109, 116, 32, 16, 0, 0, 0,
            1, 0, 2, 0, 64, 31, 0, 0, 0, 125, 0, 0, 4, 0, 16, 0, 100, 97, 116, 97,
            4, 0, 0, 0] @ [0, 0, 0, 0])"
    using audioBufferToWav_short[OF l] by simp
  have b: "le16 (nat (scaleSample (clampSample (Some (1 / 2))) mod 2 ^ 16)) = [255, 63]"
    by (simp add: scaleSample_def clampSample_def toInt32_def truncR_def le16_def)
  have c: "le16 (nat (scaleSample (clampSample (Some (- 1))) mod 2 ^ 16)) = [0, 128]"
    by (simp add: scaleSample_def clampSample_def toInt32_def truncR_def le16_def)
  from a b c show ?thesis by blast
qed

section \<open>Results on playback control\<close>

lemma deref_Some [simp]: "deref (Some m) = Ok m"
  by (simp add: deref_def)

lemma partialState_reachable:
  "handleToggle2 (toggleSynced initialState) = Ok partialState"
  by (simp add: handleToggle2_def toggleSynced_def initialState_def partialState_def play_def)

text \<open>
  What one tick does, for the callback that closed over \<open>c\<close>, with all three elements
  attached: it never changes the leader; when \<open>c\<close> holds and the leader is playing, a
  follower further than 0.15 from the leader is set to the leader's position and a
  follower within 0.15 is left as it is; when \<open>c\<close> does not hold, no element is changed.
\<close>

lemma syncLoop_effect:
  assumes "videoOriginalRef s = Some v1" and "videoMutedRef s = Some v2"
    and "audioIsolatedRef s = Some a1"
  shows "\<exists>s'. syncLoop c s = Ok s'
     \<and> videoOriginalRef s' = Some v1
     \<and> (c \<and> \<not> paused v1 \<longrightarrow>
          videoMutedRef s' = Some (if \<bar>currentTime v2 - currentTime v1\<bar> > 0.15
                                   then v2\<lparr>currentTime := currentTime v1\<rparr> else v2)
        \<and> audioIsolatedRef s' = Some (if \<bar>currentTime a1 - currentTime v1\<bar> > 0.15
                                   then a1\<lparr>currentTime := currentTime v1\<rparr> else a1))
     \<and> (\<not> c \<longrightarrow> videoMutedRef s' = Some v2 \<and> audioIsolatedRef s' = Some a1)"
  using assms by (simp add: syncLoop_def Let_def seekTo_def)

lemma syncLoop_driftState:
  "\<exists>s'. runFrame driftState = Ok s'
     \<and> videoOriginalRef s' = Some \<lparr>currentTime = 10, paused = False\<rparr>
     \<and> videoMutedRef s' = Some \<lparr>currentTime = 101 / 10, paused = False\<rparr>
     \<and> audioIsolatedRef s' = Some \<lparr>currentTime = 10, paused = False\<rparr>"
  by (simp add: runFrame_def syncLoop_def driftState_def Let_def seekTo_def)

text \<open>\<open>staleState\<close> is reached from the initial state: play all, unlink, pause the muted
  video, a tenth of a second, three frames, another tenth of a second.\<close>

lemma staleState_reachable:
  "bindR (handleGlobalPlayPause initialState) (\<lambda>s1.
     let s2 = restartEffect initialState s1;
         s3 = toggleSynced s2;
         s4 = restartEffect s2 s3
     in bindR (handleToggle2 s4) (\<lambda>s5.
          let s6 = restartEffect s4 s5
          in bindR (runFrame (playOn (1 / 10) s6)) (\<lambda>s7.
             bindR (runFrame s7) (\<lambda>s8.
             bindR (runFrame s8) (\<lambda>s9.
             Ok (playOn (1 / 10) s9))))))
   = Ok staleState"
  by (simp add: handleGlobalPlayPause_def handleToggle2_def restartEffect_def toggleSynced_def
        runFrame_def syncLoop_def playOn_def advance_def initialState_def staleState_def
        play_def pause_def seekTo_def Let_def)

text \<open>
  Claim C2. The claim fails on the code for a tick that was requested before the user
  unlinked: its callback still holds \<open>isSynced = true\<close>, nothing cancels it, and it
  requests itself again on every frame. In \<open>staleState\<close> the sync mode is Unlinked, the
  leader plays at 0.2 and both followers are paused at 0; the next frame seeks both
  followers to 0.2.
\<close>

theorem stale_tick_seeks_while_unlinked:
  "\<not> isSynced staleState
   \<and> runFrame staleState
       = Ok \<lparr>isSynced = False, isPlaying1 = True, isPlaying2 = False,
             currentTime1 = 1 / 5, currentTime2 = 0,
             videoOriginalRef = Some \<lparr>currentTime = 1 / 5, paused = False\<rparr>,
             videoMutedRef = Some \<lparr>currentTime = 1 / 5, paused = True\<rparr>,
             audioIsolatedRef = Some \<lparr>currentTime = 1 / 5, paused = True\<rparr>,
             pendingFrames = [False, False, True]\<rparr>"
  by (simp add: runFrame_def syncLoop_def staleState_def Let_def seekTo_def)

text \<open>
  Claim C3 as stated fails: in \<open>partialState\<close> the muted video and the isolated audio
  are playing and the original video is not, and \<open>handleGlobalPlayPause\<close> starts all
  three instead of pausing them.
\<close>

theorem globalPlayPause_any_playing_counterexample:
  "map_option paused (videoMutedRef partialState) = Some False
   \<and> handleGlobalPlayPause partialState
       = Ok \<lparr>isSynced = False, isPlaying1 = True, isPlaying2 = True,
             currentTime1 = 0, currentTime2 = 0,
             videoOriginalRef = Some \<lparr>currentTime = 0, paused = False\<rparr>,
             videoMutedRef = Some \<lparr>currentTime = 0, paused = False\<rparr>,
             audioIsolatedRef = Some \<lparr>currentTime = 0, paused = False\<rparr>,
             pendingFrames = []\<rparr>"
  by (simp add: handleGlobalPlayPause_def partialState_def play_def)

text \<open>
  Claim C3, amended. With all three elements attached, \<open>handleGlobalPlayPause\<close> pauses
  all three when the flag \<open>isPlaying1\<close> is set; otherwise it plays all three, after
  seeking the two followers to the leader's position when linked.
\<close>

theorem handleGlobalPlayPause_effect:
  assumes "videoOriginalRef s = Some v1" and "videoMutedRef s = Some v2"
    and "audioIsolatedRef s = Some a1"
  shows "\<exists>s'. handleGlobalPlayPause s = Ok s'
     \<and> (isPlaying1 s \<longrightarrow>
          videoOriginalRef s' = Some (v1\<lparr>paused := True\<rparr>)
        \<and> videoMutedRef s' = Some (v2\<lparr>paused := True\<rparr>)
        \<and> audioIsolatedRef s' = Some (a1\<lparr>paused := True\<rparr>))
     \<and> (\<not> isPlaying1 s \<and> isSynced s \<longrightarrow>
          videoOriginalRef s' = Some (v1\<lparr>paused := False\<rparr>)
        \<and> videoMutedRef s' = Some (v2\<lparr>currentTime := currentTime v1, paused := False\<rparr>)
        \<and> audioIsolatedRef s' = Some (a1\<lparr>currentTime := currentTime v1, paused := False\<rparr>))
     \<and> (\<not> isPlaying1 s \<and> \<not> isSynced s \<longrightarrow>
          videoOriginalRef s' = Some (v1\<lparr>paused := False\<rparr>)
        \<and> videoMutedRef s' = Some (v2\<lparr>paused := False\<rparr>)
        \<and> audioIsolatedRef s' = Some (a1\<lparr>paused := False\<rparr>))"
  using assms by (simp add: handleGlobalPlayPause_def Let_def seekTo_def play_def pause_def)

theorem handleGlobalPlayPause_effect_witness:
  "\<exists>s'. handleGlobalPlayPause linkedApartState = Ok s'
     \<and> videoOriginalRef s' = Some \<lparr>currentTime = 3, paused = False\<rparr>
     \<and> videoMutedRef s' = Some \<lparr>currentTime = 3, paused = False\<rparr>
     \<and> audioIsolatedRef s' = Some \<lparr>currentTime = 3, paused = False\<rparr>"
proof -
  have a: "videoOriginalRef linkedApartState = Some \<lparr>currentTime = 3, paused = True\<rparr>"
    and b: "videoMutedRef linkedApartState = Some \<lparr>currentTime = 5, paused = True\<rparr>"
    and c: "audioIsolatedRef linkedApartState = Some \<lparr>currentTime = 5, paused = True\<rparr>"
    and d: "isSynced linkedApartState" "\<not> isPlaying1 linkedApartState"
    by (simp_all add: linkedApartState_def)
  from handleGlobalPlayPause_effect[OF a b c] d show ?thesis by simp
qed

text \<open>
  Claim C4 as stated fails: linked, with the original video paused at 3 and the followers
  paused at 5, \<open>handleToggle1\<close> starts all three and leaves the followers at 5.
\<close>

theorem toggle_linked_no_seek_counterexample:
  "handleToggle1 linkedApartState
     = Ok \<lparr>isSynced = True, isPlaying1 = True, isPlaying2 = True,
           currentTime1 = 3, currentTime2 = 5,
           videoOriginalRef = Some \<lparr>currentTime = 3, paused = False\<rparr>,
           videoMutedRef = Some \<lparr>currentTime = 5, paused = False\<rparr>,
           audioIsolatedRef = Some \<lparr>currentTime = 5, paused = False\<rparr>,
           pendingFrames = []\<rparr>"
  by (simp add: handleToggle1_def linkedApartState_def play_def)

text \<open>
  Claim C4, amended. \<open>handleToggle1\<close> plays the original video if it is paused and
  pauses it otherwise; \<open>handleToggle2\<close> does so for the muted video and gives the
  isolated audio the same action. When linked the same action goes to the remaining
  elements that are attached; when unlinked the remaining elements are unchanged. No toggle
  changes the position of an element it did not toggle by name, and none seeks.
\<close>

theorem handleToggle_effect:
  "(videoOriginalRef s = Some v1 \<longrightarrow>
      (\<exists>s'. handleToggle1 s = Ok s'
         \<and> videoOriginalRef s' = Some (v1\<lparr>paused := \<not> paused v1\<rparr>)
         \<and> (isSynced s \<longrightarrow>
              videoMutedRef s' = map_option (\<lambda>m. m\<lparr>paused := \<not> paused v1\<rparr>) (videoMutedRef s)
            \<and> audioIsolatedRef s'
                = map_option (\<lambda>m. m\<lparr>paused := \<not> paused v1\<rparr>) (audioIsolatedRef s))
         \<and> (\<not> isSynced s \<longrightarrow>
              videoMutedRef s' = videoMutedRef s \<and> audioIsolatedRef s' = audioIsolatedRef s)
         \<and> map_option currentTime (videoMutedRef s') = map_option currentTime (videoMutedRef s)
         \<and> map_option currentTime (audioIsolatedRef s')
             = map_option currentTime (audioIsolatedRef s)))
   \<and> (videoMutedRef s = Some v2 \<and> audioIsolatedRef s = Some a1 \<longrightarrow>
      (\<exists>s'. handleToggle2 s = Ok s'
         \<and> videoMutedRef s' = Some (v2\<lparr>paused := \<not> paused v2\<rparr>)
         \<and> audioIsolatedRef s' = Some (a1\<lparr>paused := \<not> paused v2\<rparr>)
         \<and> (isSynced s \<longrightarrow>
              videoOriginalRef s'
                = map_option (\<lambda>m. m\<lparr>paused := \<not> paused v2\<rparr>) (videoOriginalRef s))
         \<and> (\<not> isSynced s \<longrightarrow> videoOriginalRef s' = videoOriginalRef s)
         \<and> map_option currentTime (videoOriginalRef s')
             = map_option currentTime (videoOriginalRef s)))"
proof (intro conjI impI)
  assume "videoOriginalRef s = Some v1"
  then show "\<exists>s'. handleToggle1 s = Ok s'
         \<and> videoOriginalRef s' = Some (v1\<lparr>paused := \<not> paused v1\<rparr>)
         \<and> (isSynced s \<longrightarrow>
              videoMutedRef s' = map_option (\<lambda>m. m\<lparr>paused := \<not> paused v1\<rparr>) (videoMutedRef s)
            \<and> audioIsolatedRef s'
                = map_option (\<lambda>m. m\<lparr>paused := \<not> paused v1\<rparr>) (audioIsolatedRef s))
         \<and> (\<not> isSynced s \<longrightarrow>
              videoMutedRef s' = videoMutedRef s \<and> audioIsolatedRef s' = audioIsolatedRef s)
         \<and> map_option currentTime (videoMutedRef s') = map_option currentTime (videoMutedRef s)
         \<and> map_option currentTime (audioIsolatedRef s')
             = map_option currentTime (audioIsolatedRef s)"
    by (cases "videoMutedRef s"; cases "audioIsolatedRef s")
       (simp_all add: handleToggle1_def Let_def play_def pause_def)
next
  assume "videoMutedRef s = Some v2 \<and> audioIsolatedRef s = Some a1"
  then show "\<exists>s'. handleToggle2 s = Ok s'
         \<and> videoMutedRef s' = Some (v2\<lparr>paused := \<not> paused v2\<rparr>)
         \<and> audioIsolatedRef s' = Some (a1\<lparr>paused := \<not> paused v2\<rparr>)
         \<and> (isSynced s \<longrightarrow>
              videoOriginalRef s'
                = map_option (\<lambda>m. m\<lparr>paused := \<not> paused v2\<rparr>) (videoOriginalRef s))
         \<and> (\<not> isSynced s \<longrightarrow> videoOriginalRef s' = videoOriginalRef s)
         \<and> map_option currentTime (videoOriginalRef s')
             = map_option currentTime (videoOriginalRef s)"
    by (cases "videoOriginalRef s")
       (simp_all add: handleToggle2_def Let_def play_def pause_def)
qed


theorem handleToggle_effect_witness:
  "(\<exists>s'. handleToggle1 unlinkedDriftState = Ok s'
      \<and> videoOriginalRef s' = Some \<lparr>currentTime = 3, paused = False\<rparr>
      \<and> videoMutedRef s' = Some \<lparr>currentTime = 5, paused = False\<rparr>
      \<and> audioIsolatedRef s' = Some \<lparr>currentTime = 26 / 5, paused = False\<rparr>)
   \<and> (\<exists>s'. handleToggle2 linkedApartState = Ok s'
      \<and> videoOriginalRef s' = Some \<lparr>currentTime = 3, paused = False\<rparr>
      \<and> videoMutedRef s' = Some \<lparr>currentTime = 5, paused = False\<rparr>
      \<and> audioIsolatedRef s' = Some \<lparr>currentTime = 5, paused = False\<rparr>)"
proof
  have a: "videoOriginalRef unlinkedDriftState = Some \<lparr>currentTime = 3, paused = True\<rparr>"
    and b: "\<not> isSynced unlinkedDriftState"
    and c: "videoMutedRef unlinkedDriftState = Some \<lparr>currentTime = 5, paused = False\<rparr>"
    and d: "audioIsolatedRef unlinkedDriftState = Some \<lparr>currentTime = 26 / 5, paused = False\<rparr>"
    by (simp_all add: unlinkedDriftState_def)
  from handleToggle_effect[of unlinkedDriftState "\<lparr>currentTime = 3, paused = True\<rparr>",
      THEN conjunct1, THEN mp, OF a] b c d
  show "\<exists>s'. handleToggle1 unlinkedDriftState = Ok s'
      \<and> videoOriginalRef s' = Some \<lparr>currentTime = 3, paused = False\<rparr>
      \<and> videoMutedRef s' = Some \<lparr>currentTime = 5, paused = False\<rparr>
      \<and> audioIsolatedRef s' = Some \<lparr>currentTime = 26 / 5, paused = False\<rparr>"
    by auto
next
  have a: "videoMutedRef linkedApartState = Some \<lparr>currentTime = 5, paused = True\<rparr>
      \<and> audioIsolatedRef linkedApartState = Some \<lparr>currentTime = 5, paused = True\<rparr>"
    and b: "isSynced linkedApartState"
    and c: "videoOriginalRef linkedApartState = Some \<lparr>currentTime = 3, paused = True\<rparr>"
    by (simp_all add: linkedApartState_def)
  from handleToggle_effect[of linkedApartState _ "\<lparr>currentTime = 5, paused = True\<rparr>"
      "\<lparr>currentTime = 5, paused = True\<rparr>", THEN conjunct2, THEN mp, OF a] b c
  show "\<exists>s'. handleToggle2 linkedApartState = Ok s'
      \<and> videoOriginalRef s' = Some \<lparr>currentTime = 3, paused = False\<rparr>
      \<and> videoMutedRef s' = Some \<lparr>currentTime = 5, paused = False\<rparr>
      \<and> audioIsolatedRef s' = Some \<lparr>currentTime = 5, paused = False\<rparr>"
    by auto
qed





text \<open>No command attaches or detaches an element, so the refs stay null together or
  attached together.\<close>

lemma handleGlobalPlayPause_refs:
  "handleGlobalPlayPause s = Ok s' \<Longrightarrow>
     (videoOriginalRef s' = None) = (videoOriginalRef s = None)
     \<and> (videoMutedRef s' = None) = (videoMutedRef s = None)
     \<and> (audioIsolatedRef s' = None) = (audioIsolatedRef s = None)"
  by (cases "videoOriginalRef s"; cases "videoMutedRef s"; cases "audioIsolatedRef s")
     (auto simp: handleGlobalPlayPause_def Let_def split: if_splits)

lemma handleToggle1_refs:
  "handleToggle1 s = Ok s' \<Longrightarrow>
     (videoOriginalRef s' = None) = (videoOriginalRef s = None)
     \<and> (videoMutedRef s' = None) = (videoMutedRef s = None)
     \<and> (audioIsolatedRef s' = None) = (audioIsolatedRef s = None)"
  by (cases "videoOriginalRef s")
     (auto simp: handleToggle1_def Let_def split: if_splits)

lemma handleToggle2_refs:
  "handleToggle2 s = Ok s' \<Longrightarrow>
     (videoOriginalRef s' = None) = (videoOriginalRef s = None)
     \<and> (videoMutedRef s' = None) = (videoMutedRef s = None)
     \<and> (audioIsolatedRef s' = None) = (audioIsolatedRef s = None)"
  by (cases "videoMutedRef s"; cases "audioIsolatedRef s")
     (auto simp: handleToggle2_def Let_def split: if_splits)

lemma handleSeek_refs:
  "handleSeek t s = Ok s' \<Longrightarrow>
     (videoOriginalRef s' = None) = (videoOriginalRef s = None)
     \<and> (videoMutedRef s' = None) = (videoMutedRef s = None)
     \<and> (audioIsolatedRef s' = None) = (audioIsolatedRef s = None)"
  by (cases "videoOriginalRef s"; cases "videoMutedRef s"; cases "audioIsolatedRef s")
     (auto simp: handleSeek_def seekFollowers_def split: if_splits)

lemma syncLoop_refs:
  "syncLoop c s = Ok s' \<Longrightarrow>
     (videoOriginalRef s' = None) = (videoOriginalRef s = None)
     \<and> (videoMutedRef s' = None) = (videoMutedRef s = None)
     \<and> (audioIsolatedRef s' = None) = (audioIsolatedRef s = None)"
  by (cases "videoOriginalRef s"; cases "videoMutedRef s"; cases "audioIsolatedRef s")
     (auto simp: syncLoop_def Let_def split: if_splits)

lemma refsAttachedTogether_kept:
  assumes "refsAttachedTogether s"
    and "handleGlobalPlayPause s = Ok s' \<or> handleToggle1 s = Ok s' \<or> handleToggle2 s = Ok s'
         \<or> handleSeek t s = Ok s' \<or> syncLoop c s = Ok s'"
  shows "refsAttachedTogether s'"
proof -
  from assms(2) have "(videoOriginalRef s' = None) = (videoOriginalRef s = None)
     \<and> (videoMutedRef s' = None) = (videoMutedRef s = None)
     \<and> (audioIsolatedRef s' = None) = (audioIsolatedRef s = None)"
    using handleGlobalPlayPause_refs handleToggle1_refs handleToggle2_refs handleSeek_refs
      syncLoop_refs by blast
  with assms(1) show ?thesis by (simp add: refsAttachedTogether_def)
qed



end
